theory Spec2Isabelle
  imports Complex_Main "HOL-Library.Sublist"
begin

section \<open>Python errors\<close>

text \<open>
  The exceptions that the modelled code can raise. A computation that may raise returns
  \<open>py_error + 'a\<close>, with \<open>Inl\<close> for the exception.
\<close>

datatype py_error = ZeroDivisionError | IndexError | UnboundLocalError | ValueError | TypeError
  | AttributeError | KeyError

section \<open>Function helpers of \<open>tb_model.py\<close>\<close>

text \<open>
  \<^verbatim>\<open>
  def convert_competing_proportion_to_rate(competing_flows):
      return lambda proportion: proportion * competing_flows / (1.0 - proportion)
  \<close>
  Python floats are read as reals. Python's float division raises ZeroDivisionError when
  the divisor is zero; the divisor here is \<open>1.0 - proportion\<close>.
\<close>

definition convert_competing_proportion_to_rate :: "real \<Rightarrow> real \<Rightarrow> py_error + real" where
  "convert_competing_proportion_to_rate competing_flows =
     (\<lambda>proportion.
        if 1 - proportion = 0 then Inl ZeroDivisionError
        else Inr (proportion * competing_flows / (1 - proportion)))"

text \<open>
  \<^verbatim>\<open>
  def return_function_of_function(inner_function, outer_function):
      return lambda value: outer_function(inner_function(value))
  \<close>
\<close>

definition return_function_of_function :: "('a \<Rightarrow> 'b) \<Rightarrow> ('b \<Rightarrow> 'c) \<Rightarrow> 'a \<Rightarrow> 'c" where
  "return_function_of_function inner_function outer_function =
     (\<lambda>value. outer_function (inner_function value))"

subsection \<open>The same closures with the interpreter state explicit\<close>

text \<open>
  To speak about side effects, a Python callable is read as a function that takes its
  argument and the state of the interpreter (of any type \<open>'s\<close>) and returns its result, or
  the exception it raises, together with the state it leaves behind. The two lambdas are
  transcribed again in this reading: the body of the first is arithmetic on a captured
  float and its argument; the body of the second calls \<open>inner_function\<close>, and, unless that
  raised, calls \<open>outer_function\<close> on its result in the state \<open>inner_function\<close> left.
\<close>

type_synonym ('s, 'a, 'b) py_callable = "'a \<Rightarrow> 's \<Rightarrow> (py_error + 'b) \<times> 's"

definition convert_competing_proportion_to_rate_call ::
  "real \<Rightarrow> ('s, real, real) py_callable" where
  "convert_competing_proportion_to_rate_call competing_flows =
     (\<lambda>proportion s.
        (if 1 - proportion = 0 then Inl ZeroDivisionError
         else Inr (proportion * competing_flows / (1 - proportion)), s))"

definition return_function_of_function_call ::
  "('s, 'a, 'b) py_callable \<Rightarrow> ('s, 'b, 'c) py_callable \<Rightarrow> ('s, 'a, 'c) py_callable" where
  "return_function_of_function_call inner_function outer_function =
     (\<lambda>value s.
        case inner_function value s of
          (Inl e, s') \<Rightarrow> (Inl e, s')
        | (Inr x, s') \<Rightarrow> outer_function x s')"

text \<open>
  A callable is pure when no call changes the state and no result depends on it.
\<close>

definition pure_callable :: "('s, 'a, 'b) py_callable \<Rightarrow> bool" where
  "pure_callable f \<longleftrightarrow> (\<forall>x s s'. snd (f x s) = s \<and> fst (f x s) = fst (f x s'))"

definition lift_pure :: "('a \<Rightarrow> py_error + 'b) \<Rightarrow> ('s, 'a, 'b) py_callable" where
  "lift_pure g = (\<lambda>x s. (g x, s))"

text \<open>
  A run of evaluations of one callable at a list of arguments, in the order given, each
  starting in the state the previous one left; an evaluation that raises yields its
  exception as its result and the run goes on.
\<close>

fun evaluations ::
  "('s, 'a, 'b) py_callable \<Rightarrow> 'a list \<Rightarrow> 's \<Rightarrow> (py_error + 'b) list \<times> 's" where
  "evaluations f [] s = ([], s)"
| "evaluations f (x # xs) s =
     (case f x s of (r, s') \<Rightarrow>
        (case evaluations f xs s' of (rs, s'') \<Rightarrow> (r # rs, s'')))"

section \<open>Standard flows of \<open>tb_model.py\<close>\<close>

text \<open>
  A flow is a Python dict from field names to strings; an absent key is \<open>None\<close>.
  Each helper extends the list it is given (\<^verbatim>\<open>list_of_flows += [...]\<close>) and returns it.
\<close>

type_synonym flow = "string \<rightharpoonup> string"

definition add_standard_latency_flows :: "flow list \<Rightarrow> flow list" where
  "add_standard_latency_flows list_of_flows = list_of_flows @
     [[''type'' \<mapsto> ''standard_flows'', ''parameter'' \<mapsto> ''early_progression'',
       ''origin'' \<mapsto> ''early_latent'', ''to'' \<mapsto> ''infectious''],
      [''type'' \<mapsto> ''standard_flows'', ''parameter'' \<mapsto> ''stabilisation'',
       ''origin'' \<mapsto> ''early_latent'', ''to'' \<mapsto> ''late_latent''],
      [''type'' \<mapsto> ''standard_flows'', ''parameter'' \<mapsto> ''late_progression'',
       ''origin'' \<mapsto> ''late_latent'', ''to'' \<mapsto> ''infectious'']]"

definition add_standard_natural_history_flows :: "flow list \<Rightarrow> flow list" where
  "add_standard_natural_history_flows list_of_flows = list_of_flows @
     [[''type'' \<mapsto> ''standard_flows'', ''parameter'' \<mapsto> ''recovery'',
       ''origin'' \<mapsto> ''infectious'', ''to'' \<mapsto> ''recovered''],
      [''type'' \<mapsto> ''compartment_death'', ''parameter'' \<mapsto> ''infect_death'',
       ''origin'' \<mapsto> ''infectious'']]"

definition add_standard_infection_flows :: "flow list \<Rightarrow> flow list" where
  "add_standard_infection_flows list_of_flows = list_of_flows @
     [[''type'' \<mapsto> ''infection_frequency'', ''parameter'' \<mapsto> ''beta'',
       ''origin'' \<mapsto> ''susceptible'', ''to'' \<mapsto> ''early_latent''],
      [''type'' \<mapsto> ''infection_frequency'', ''parameter'' \<mapsto> ''beta'',
       ''origin'' \<mapsto> ''recovered'', ''to'' \<mapsto> ''early_latent'']]"

text \<open>
  The compartment list and the flow list as \<open>build_working_tb_model\<close> and
  \<open>build_model_for_calibration\<close> assemble them.
\<close>

definition compartments :: "string list" where
  "compartments = [''susceptible'', ''early_latent'', ''late_latent'', ''infectious'', ''recovered'']"

definition flows :: "flow list" where
  "flows = add_standard_natural_history_flows
             (add_standard_latency_flows (add_standard_infection_flows []))"

definition flow_wellformed :: "flow \<Rightarrow> bool" where
  "flow_wellformed f \<longleftrightarrow>
     f ''type'' \<in> {Some ''infection_frequency'', Some ''standard_flows'', Some ''compartment_death''}
     \<and> f ''parameter'' \<noteq> None
     \<and> (\<exists>origin \<in> set compartments. f ''origin'' = Some origin)
     \<and> (if f ''type'' = Some ''compartment_death'' then f ''to'' = None
        else \<exists>dest \<in> set compartments. f ''to'' = Some dest)"

text \<open>
  The four fields of a flow, as the model reads them, and the case-detection flow that
  \<open>build_working_tb_model\<close> adds to the model after the standard ones.
\<close>

definition flow_fields :: "flow \<Rightarrow> string option \<times> string option \<times> string option \<times> string option" where
  "flow_fields f = (f ''type'', f ''parameter'', f ''origin'', f ''to'')"

definition case_detection_flow :: flow where
  "case_detection_flow =
     [''type'' \<mapsto> ''standard_flows'', ''parameter'' \<mapsto> ''case_detection'',
      ''origin'' \<mapsto> ''infectious'', ''to'' \<mapsto> ''recovered'']"

section \<open>Calibration targets of \<open>calibration.py\<close>\<close>

text \<open>
  A targeted output is a dict with the keys \<open>output_key\<close>, \<open>years\<close>, \<open>values\<close> and,
  optionally, \<open>sd\<close>; any further keys are the record's extension. \<open>values\<close> is a
  keyword of Isabelle, so the field is \<open>target_values\<close>.

  \<open>numpy.mean\<close> of an empty list is NaN (with a warning) and NaN times a float is NaN.
\<close>

datatype np_float = Num real | NaN

definition np_mean :: "real list \<Rightarrow> np_float" where
  "np_mean xs = (if xs = [] then NaN else Num (sum_list xs / real (length xs)))"

fun np_times :: "real \<Rightarrow> np_float \<Rightarrow> np_float" where
  "np_times k (Num v) = Num (k * v)"
| "np_times k NaN = NaN"

record target =
  output_key :: string
  years :: "int list"
  target_values :: "real list"
  sd :: "np_float option"

text \<open>
  \<^verbatim>\<open>
  def workout_unspecified_sds(self):
      for i, target in enumerate(self.targeted_outputs):
          if 'sd' not in target.keys():
              self.targeted_outputs[i]['sd'] = 0.5 / 4. * np.mean(target['values'])
              print(self.targeted_outputs[i]['sd'])
  \<close>
  \<open>workout_sd i\<close> is the loop body at index \<open>i\<close>; printing is left out.
\<close>

definition workout_sd :: "nat \<Rightarrow> 'a target_scheme list \<Rightarrow> 'a target_scheme list" where
  "workout_sd i targeted_outputs =
     (let target = targeted_outputs ! i in
      if sd target = None
      then targeted_outputs
             [i := (targeted_outputs ! i)
                     \<lparr>sd := Some (np_times (0.5 / 4) (np_mean (target_values target)))\<rparr>]
      else targeted_outputs)"

definition workout_unspecified_sds :: "'a target_scheme list \<Rightarrow> 'a target_scheme list" where
  "workout_unspecified_sds targeted_outputs =
     fold workout_sd [0..<length targeted_outputs] targeted_outputs"

definition with_default_sd :: "'a target_scheme \<Rightarrow> 'a target_scheme" where
  "with_default_sd t =
     (if sd t = None
      then t\<lparr>sd := Some (np_times (0.5 / 4) (np_mean (target_values t)))\<rparr> else t)"

definition example_targets :: "target list" where
  "example_targets =
     [\<lparr>output_key = ''prevXinfectiousXamongXage_15'', years = [2015, 2016],
       target_values = [0.005, 0.004], sd = None\<rparr>,
      \<lparr>output_key = ''prevXlatentXamongXage_5'', years = [2014],
       target_values = [0.096], sd = Some (Num 0.012)\<rparr>]"


section \<open>The fitting driver of \<open>calibration.py\<close>\<close>

text \<open>
  A prior is a dict with the keys \<open>param_name\<close>, \<open>distribution\<close> and \<open>distri_params\<close>.
  Of the \<open>Calibration\<close> object the fields that the driver touches are kept.

  The pymc3 and theano libraries are outside the program. Every call the driver makes
  into them is a parameter, a field of the record \<open>pymc3\<close>, and every one of them may
  raise. The model that \<^verbatim>\<open>with basic_model:\<close> makes current (type \<open>'c\<close>) is passed to the
  calls that read or extend it, and they return it extended. \<open>'v\<close> is the type of the
  library's variables, \<open>'s\<close> of its step methods, \<open>'m\<close> of the estimates of \<open>pm.find_MAP\<close>
  and \<open>'t\<close> of the trace of \<open>pm.sample\<close>. The likelihood closure
  \<^verbatim>\<open>lambda v: self.loglike(v)\<close> is given to \<open>pm.DensityDist\<close> and called by the library
  only; it is part of that parameter.
\<close>

record prior =
  param_name :: string
  distribution :: string
  distri_params :: "real list"

record ('c, 'v, 's, 'm, 't) pymc3 =
  pm_Model :: "py_error + 'c"
  pm_Uniform :: "string \<Rightarrow> real \<Rightarrow> real \<Rightarrow> 'c \<Rightarrow> py_error + 'v \<times> 'c"
  tt_as_tensor_variable :: "'v list \<Rightarrow> py_error + 'v"
  pm_DensityDist :: "string \<Rightarrow> 'v \<Rightarrow> 'c \<Rightarrow> py_error + 'c"
  pm_find_MAP :: "'c \<Rightarrow> py_error + 'm"
  pm_Metropolis :: "'c \<Rightarrow> py_error + 's"
  pm_DEMetropolis :: "'c \<Rightarrow> py_error + 's"
  pm_sample :: "int \<Rightarrow> 's \<Rightarrow> int \<Rightarrow> int \<Rightarrow> bool \<Rightarrow> bool \<Rightarrow> 'c \<Rightarrow> py_error + 't"

record ('m, 't) calibration =
  priors :: "prior list"
  mle_estimates :: 'm
  mcmc_trace :: "'t option"

text \<open>
  \<^verbatim>\<open>
  fitted_params = []
  for prior in self.priors:
      if prior['distribution'] == 'uniform':
          value = pm.Uniform(prior['param_name'], lower=prior['distri_params'][0],
                             upper=prior['distri_params'][1])
          fitted_params.append(value)
  \<close>
  Reading \<open>distri_params\<close> at index 0 or 1 raises IndexError when the list is shorter; the
  arguments are evaluated before \<open>pm.Uniform\<close> is called, which registers the variable in
  the current model and may raise itself.
\<close>

fun fitted_params_of ::
  "('c, 'v, 's, 'm, 't) pymc3 \<Rightarrow> prior list \<Rightarrow> 'c \<Rightarrow> py_error + 'v list \<times> 'c" where
  "fitted_params_of pm [] basic_model = Inr ([], basic_model)"
| "fitted_params_of pm (prior # rest) basic_model =
     (if distribution prior = ''uniform'' then
        (case distri_params prior of
           lower # upper # _ \<Rightarrow>
             (case pm_Uniform pm (param_name prior) lower upper basic_model of
                Inl e \<Rightarrow> Inl e
              | Inr (v, basic_model') \<Rightarrow>
                  (case fitted_params_of pm rest basic_model' of
                     Inl e \<Rightarrow> Inl e
                   | Inr (fitted_params, basic_model'') \<Rightarrow>
                       Inr (v # fitted_params, basic_model'')))
         | _ \<Rightarrow> Inl IndexError)
      else fitted_params_of pm rest basic_model)"

text \<open>
  \<^verbatim>\<open>
  basic_model = pm.Model()
  with basic_model:
      fitted_params = [] ...
      theta = tt.as_tensor_variable(fitted_params)
      pm.DensityDist('likelihood', lambda v: self.loglike(v), observed={'v': theta})
      if run_mode == 'mle':
          self.mle_estimates = pm.find_MAP()
      elif run_mode == 'mcmc':  # full MCMC requested
          if mcmc_method == 'Metropolis':
              mcmc_step = pm.Metropolis()
          elif mcmc_method == 'DEMetropolis':
              mcmc_step = pm.DEMetropolis()
          else:
              ValueError("requested mcmc mode is not supported. ...")
          self.mcmc_trace = pm.sample(draws=n_iterations, step=mcmc_step, tune=n_burned,
                                      chains=n_chains, progressbar=False, parallelize=parallel)
      else:
          ValueError("requested run mode is not supported. ...")
  \<close>
  The variables are registered, the tensor is built and the likelihood is registered
  before \<open>run_mode\<close> is looked at, whatever its value; an exception of any of these calls
  ends the driver.

  The two \<open>ValueError(...)\<close> expressions build an exception object and drop it: there is no
  \<open>raise\<close>, so they are no step of the model. \<open>mcmc_step_of\<close> is the value of the local
  \<open>mcmc_step\<close> after the inner conditional, \<open>None\<close> while no branch has assigned it; reading
  it then, for the call of \<open>pm.sample\<close>, raises UnboundLocalError. The result of the driver
  is the exception raised, if any, and the object after the call.
\<close>

definition mcmc_step_of ::
  "('c, 'v, 's, 'm, 't) pymc3 \<Rightarrow> string \<Rightarrow> 'c \<Rightarrow> py_error + 's option" where
  "mcmc_step_of pm mcmc_method basic_model =
     (if mcmc_method = ''Metropolis'' then
        (case pm_Metropolis pm basic_model of Inl e \<Rightarrow> Inl e | Inr s \<Rightarrow> Inr (Some s))
      else if mcmc_method = ''DEMetropolis'' then
        (case pm_DEMetropolis pm basic_model of Inl e \<Rightarrow> Inl e | Inr s \<Rightarrow> Inr (Some s))
      else Inr None)"

definition run_fitting_algorithm ::
  "('c, 'v, 's, 'm, 't) pymc3 \<Rightarrow> ('m, 't) calibration \<Rightarrow> string \<Rightarrow> string \<Rightarrow> int \<Rightarrow> int \<Rightarrow> int
     \<Rightarrow> bool \<Rightarrow> py_error option \<times> ('m, 't) calibration" where
  "run_fitting_algorithm pm self run_mode mcmc_method n_iterations n_burned n_chains parallel' =
     (case pm_Model pm of
        Inl e \<Rightarrow> (Some e, self)
      | Inr basic_model \<Rightarrow>
     (case fitted_params_of pm (priors self) basic_model of
        Inl e \<Rightarrow> (Some e, self)
      | Inr (fitted_params, basic_model1) \<Rightarrow>
     (case tt_as_tensor_variable pm fitted_params of
        Inl e \<Rightarrow> (Some e, self)
      | Inr theta \<Rightarrow>
     (case pm_DensityDist pm ''likelihood'' theta basic_model1 of
        Inl e \<Rightarrow> (Some e, self)
      | Inr basic_model2 \<Rightarrow>
          if run_mode = ''mle'' then
            (case pm_find_MAP pm basic_model2 of
               Inl e \<Rightarrow> (Some e, self)
             | Inr estimates \<Rightarrow> (None, self\<lparr>mle_estimates := estimates\<rparr>))
          else if run_mode = ''mcmc'' then
            (case mcmc_step_of pm mcmc_method basic_model2 of
               Inl e \<Rightarrow> (Some e, self)
             | Inr None \<Rightarrow> (Some UnboundLocalError, self)
             | Inr (Some mcmc_step) \<Rightarrow>
                 (case pm_sample pm n_iterations mcmc_step n_burned n_chains False parallel'
                         basic_model2 of
                    Inl e \<Rightarrow> (Some e, self)
                  | Inr trace \<Rightarrow> (None, self\<lparr>mcmc_trace := Some trace\<rparr>)))
          else (None, self)))))"

text \<open>
  The priors of the module's main block, with stand-ins for the library: a model is the
  list of the names registered in it, registering a name twice raises ValueError (as
  pymc3 does), and a variable is its name. Estimates and trace are numbers.
\<close>

definition example_priors :: "prior list" where
  "example_priors =
     [\<lparr>param_name = ''contact_rate'', distribution = ''uniform'', distri_params = [2, 100]\<rparr>,
      \<lparr>param_name = ''late_progression'', distribution = ''uniform'',
       distri_params = [0.001, 0.003]\<rparr>,
      \<lparr>param_name = ''start_time'', distribution = ''uniform'', distri_params = [1800, 1850]\<rparr>]"

definition register :: "string \<Rightarrow> string list \<Rightarrow> py_error + string list" where
  "register name basic_model =
     (if name \<in> set basic_model then Inl ValueError else Inr (basic_model @ [name]))"

definition example_pymc3 :: "(string list, string, string, nat, nat) pymc3" where
  "example_pymc3 =
     \<lparr>pm_Model = Inr [],
      pm_Uniform = (\<lambda>name lower upper basic_model.
         case register name basic_model of Inl e \<Rightarrow> Inl e | Inr c \<Rightarrow> Inr (name, c)),
      tt_as_tensor_variable = (\<lambda>fitted_params. Inr (concat fitted_params)),
      pm_DensityDist = (\<lambda>name theta basic_model. register name basic_model),
      pm_find_MAP = (\<lambda>basic_model. Inr (length basic_model)),
      pm_Metropolis = (\<lambda>basic_model. Inr ''Metropolis''),
      pm_DEMetropolis = (\<lambda>basic_model. Inr ''DEMetropolis''),
      pm_sample = (\<lambda>draws step tune n_chains progressbar parallelize basic_model.
         Inr (nat draws))\<rparr>"

definition example_calibration :: "(nat, nat) calibration" where
  "example_calibration = \<lparr>priors = example_priors, mle_estimates = 0, mcmc_trace = None\<rparr>"

section \<open>Age-specific latency parameters and the step function\<close>

text \<open>
  \<^verbatim>\<open>
  def provide_age_specific_latency_parameters():
      return {"early_progression": {0: 6.6e-3, 5: 2.7e-3, 15: 2.7e-4},
              "stabilisation": {0: 1.2e-2, 5: 1.2e-2, 15: 5.4e-3},
              "late_progression": {0: 1.9e-11, 5: 6.4e-6, 15: 3.3e-6}}
  \<close>
  Dicts as association lists with distinct keys.
\<close>

definition provide_age_specific_latency_parameters :: "(string \<times> (real \<times> real) list) list" where
  "provide_age_specific_latency_parameters =
     [(''early_progression'', [(0, 6.6 / 10 ^ 3), (5, 2.7 / 10 ^ 3), (15, 2.7 / 10 ^ 4)]),
      (''stabilisation'', [(0, 1.2 / 10 ^ 2), (5, 1.2 / 10 ^ 2), (15, 5.4 / 10 ^ 3)]),
      (''late_progression'', [(0, 1.9 / 10 ^ 11), (5, 6.4 / 10 ^ 6), (15, 3.3 / 10 ^ 6)])]"

text \<open>
  Modelled from the spec: \<open>create_step_function_from_dict\<close>, which \<open>get_adapted_age_parameters\<close>
  calls, is defined in \<open>summer_model.py\<close>, and that module is not among the sources. The
  specification (section 4.3) gives it as: given breakpoint-to-value pairs, it returns a
  function that, for an input time, returns the value associated with the greatest
  breakpoint less than or equal to that time, undefined below the smallest breakpoint.
  Undefined is \<open>None\<close> here.
\<close>

definition create_step_function_from_dict :: "(real \<times> 'v) list \<Rightarrow> real \<Rightarrow> 'v option" where
  "create_step_function_from_dict input_dict =
     (\<lambda>argument.
        let reached = filter (\<lambda>breakpoint. breakpoint \<le> argument) (map fst input_dict)
        in if reached = [] then None else map_of input_dict (Max (set reached)))"

section \<open>Compartment names and the unpivoted output table of \<open>tb_model.py\<close>\<close>

text \<open>
  Python's \<open>str.split(sep)\<close> for a separator of one character, and list indexing with a
  non-negative index, which raises IndexError out of range.
\<close>

fun split_on :: "char \<Rightarrow> string \<Rightarrow> string list" where
  "split_on sep [] = [[]]"
| "split_on sep (c # cs) =
     (if c = sep then [] # split_on sep cs
      else (case split_on sep cs of
              w # ws \<Rightarrow> (c # w) # ws
            | [] \<Rightarrow> [[c]]))"

definition py_index :: "'a list \<Rightarrow> nat \<Rightarrow> py_error + 'a" where
  "py_index xs n = (if n < length xs then Inr (xs ! n) else Inl IndexError)"

text \<open>
  Modelled from the spec: the stratification engine that builds compartment names is in
  \<open>summer_model.py\<close>, which is not among the sources. The specification (section 3) gives
  the naming contract: a composite label is formed by appending, for each applied
  stratification, the delimiter \<open>X\<close>, the stratification name, an underscore and the
  stratum value, as in \<open>infectiousXage_15Xstrain_mdr\<close>.
\<close>

definition create_stratified_name :: "string \<Rightarrow> string \<Rightarrow> string \<Rightarrow> string" where
  "create_stratified_name stem stratification_name stratum_name =
     stem @ ''X'' @ stratification_name @ ''_'' @ stratum_name"

definition stratified_name :: "string \<Rightarrow> (string \<times> string) list \<Rightarrow> string" where
  "stratified_name base applied =
     foldl (\<lambda>stem (stratification_name, stratum_name).
              create_stratified_name stem stratification_name stratum_name) base applied"

text \<open>
  The model object, as far as \<open>unpivot_outputs\<close> reads it: the output matrix (one row per
  time, one column per compartment), the compartment names, the times and the names of
  the stratifications applied to the model. \<open>times\<close> is a constant of HOL, so the field is
  \<open>model_times\<close>.

  A data frame is kept as the list of its rows, a row being a dict from column names to
  cells, which hold a number or a string.
\<close>

datatype cell = Number real | Text string

type_synonym row = "string \<rightharpoonup> cell"

record model_object =
  outputs :: "real list list"
  compartment_names :: "string list"
  model_times :: "real list"
  strata :: "string list"

text \<open>
  \<^verbatim>\<open>
  output_dataframe = pd.DataFrame(model_object.outputs, columns=model_object.compartment_names)
  output_dataframe["times"] = model_object.times
  output_dataframe = output_dataframe.melt("times")
  \<close>
  The melted frame has one row per compartment column and time, in that order, with the
  columns \<open>times\<close>, \<open>variable\<close> (the compartment name) and \<open>value\<close>. A column that is
  itself called \<open>times\<close> is overwritten by the second line and is no value column.
  Compartment names are taken to be distinct.
\<close>

definition melt :: "model_object \<Rightarrow> row list" where
  "melt m =
     concat (map (\<lambda>j. map (\<lambda>i. [''times'' \<mapsto> Number (model_times m ! i),
                                 ''variable'' \<mapsto> Text (compartment_names m ! j),
                                 ''value'' \<mapsto> Number (outputs m ! i ! j)])
                          [0..<length (model_times m)])
                 (filter (\<lambda>j. compartment_names m ! j \<noteq> ''times'')
                    [0..<length (compartment_names m)]))"

text \<open>
  \<open>output_dataframe[column_name] = output_dataframe.apply(f, axis=1)\<close>: \<open>f\<close> is applied
  to every row, and the column is set from the results; an exception in any row ends
  the call.
\<close>

fun apply_rows :: "(row \<Rightarrow> py_error + 'a) \<Rightarrow> row list \<Rightarrow> py_error + 'a list" where
  "apply_rows f [] = Inr []"
| "apply_rows f (r # rs) =
     (case f r of
        Inl e \<Rightarrow> Inl e
      | Inr v \<Rightarrow> (case apply_rows f rs of Inl e \<Rightarrow> Inl e | Inr vs \<Rightarrow> Inr (v # vs)))"

definition assign_column ::
  "string \<Rightarrow> (row \<Rightarrow> py_error + string) \<Rightarrow> row list \<Rightarrow> py_error + row list" where
  "assign_column column_name f df =
     (case apply_rows f df of
        Inl e \<Rightarrow> Inl e
      | Inr vs \<Rightarrow> Inr (map (\<lambda>(r, v). r(column_name \<mapsto> Text v)) (zip df vs)))"

text \<open>
  The two lambdas of the loop: \<^verbatim>\<open>row.variable.split("X")[n_stratification]\<close> and
  \<^verbatim>\<open>row[column_name].split("_")[1]\<close>. A number has no \<open>split\<close>.
\<close>

definition split_variable :: "nat \<Rightarrow> row \<Rightarrow> py_error + string" where
  "split_variable n r =
     (case r ''variable'' of
        Some (Text s) \<Rightarrow> py_index (split_on CHR ''X'' s) n
      | Some (Number x) \<Rightarrow> Inl AttributeError
      | None \<Rightarrow> Inl AttributeError)"

definition split_stratum :: "string \<Rightarrow> row \<Rightarrow> py_error + string" where
  "split_stratum column_name r =
     (case r column_name of
        Some (Text s) \<Rightarrow> py_index (split_on CHR ''_'' s) 1
      | Some (Number x) \<Rightarrow> Inl AttributeError
      | None \<Rightarrow> Inl KeyError)"

text \<open>
  \<^verbatim>\<open>
  for n_stratification in range(len(model_object.strata) + 1):
      column_name = "compartment" if n_stratification == 0 else model_object.strata[n_stratification - 1]
      output_dataframe[column_name] = \
          output_dataframe.apply(lambda row: row.variable.split("X")[n_stratification], axis=1)
      if n_stratification > 0:
          output_dataframe[column_name] = \
              output_dataframe.apply(lambda row: row[column_name].split("_")[1], axis=1)
  return output_dataframe.drop(columns="variable")
  \<close>
  The constructor of the frame raises ValueError when a row of the matrix has not one
  entry per compartment name, and so does the assignment of the times when their number
  is not the number of rows.
\<close>

definition unpivot_step :: "string list \<Rightarrow> nat \<Rightarrow> row list \<Rightarrow> py_error + row list" where
  "unpivot_step strata_names n_stratification df =
     (let column_name =
            (if n_stratification = 0 then ''compartment''
             else strata_names ! (n_stratification - 1))
      in case assign_column column_name (split_variable n_stratification) df of
           Inl e \<Rightarrow> Inl e
         | Inr df' \<Rightarrow>
             if n_stratification > 0
             then assign_column column_name (split_stratum column_name) df'
             else Inr df')"

fun unpivot_loop :: "string list \<Rightarrow> nat list \<Rightarrow> row list \<Rightarrow> py_error + row list" where
  "unpivot_loop strata_names [] df = Inr df"
| "unpivot_loop strata_names (n # ns) df =
     (case unpivot_step strata_names n df of
        Inl e \<Rightarrow> Inl e
      | Inr df' \<Rightarrow> unpivot_loop strata_names ns df')"

definition unpivot_outputs :: "model_object \<Rightarrow> py_error + row list" where
  "unpivot_outputs m =
     (if (\<exists>r \<in> set (outputs m). length r \<noteq> length (compartment_names m))
         \<or> length (outputs m) \<noteq> length (model_times m)
      then Inl ValueError
      else case unpivot_loop (strata m) [0..<length (strata m) + 1] (melt m) of
             Inl e \<Rightarrow> Inl e
           | Inr df \<Rightarrow> Inr (map (\<lambda>r. r(''variable'' := None)) df))"

text \<open>
  What the claim about the names is stated with: the name a row was melted from; a name
  that is built per the contract from the base label \<open>base name\<close> and the stratum values
  \<open>vals name\<close>, one for each stratification of \<open>ss\<close> in order, where the base label has
  no \<open>X\<close> and the stratum values have neither \<open>X\<close> nor an underscore; stratification
  names that are distinct, have neither \<open>X\<close> nor an underscore and are not the column
  names \<open>compartment\<close> and \<open>variable\<close>; and the row expected after the first \<open>n + 1\<close>
  rounds of the loop.
\<close>

definition name_of :: "row \<Rightarrow> string" where
  "name_of r = (case r ''variable'' of Some (Text s) \<Rightarrow> s | _ \<Rightarrow> [])"

definition contract_name ::
  "(string \<Rightarrow> string) \<Rightarrow> (string \<Rightarrow> string list) \<Rightarrow> string list \<Rightarrow> string \<Rightarrow> bool" where
  "contract_name base vals ss name \<longleftrightarrow>
     name = stratified_name (base name) (zip ss (vals name))
     \<and> length (vals name) = length ss
     \<and> CHR ''X'' \<notin> set (base name)
     \<and> (\<forall>v \<in> set (vals name). CHR ''X'' \<notin> set v \<and> CHR ''_'' \<notin> set v)"

definition strata_ok :: "string list \<Rightarrow> bool" where
  "strata_ok ss \<longleftrightarrow>
     distinct ss
     \<and> (\<forall>s \<in> set ss. CHR ''X'' \<notin> set s \<and> CHR ''_'' \<notin> set s
           \<and> s \<noteq> ''compartment'' \<and> s \<noteq> ''variable'')"

primrec parsed ::
  "(string \<Rightarrow> string) \<Rightarrow> (string \<Rightarrow> string list) \<Rightarrow> string list \<Rightarrow> nat \<Rightarrow> row \<Rightarrow> row" where
  "parsed base vals ss 0 r = r(''compartment'' \<mapsto> Text (base (name_of r)))"
| "parsed base vals ss (Suc k) r =
     (parsed base vals ss k r)(ss ! k \<mapsto> Text (vals (name_of r) ! k))"

text \<open>
  A name whose stratum value has an underscore, a model in which one compartment is left
  out of the stratification (\<open>build_working_tb_model\<close> stratifies only \<open>infectious\<close> by
  \<open>smear\<close>), and a model stratified by age and strain throughout.
\<close>

definition underscore_model :: model_object where
  "underscore_model =
     \<lparr>outputs = [[1]],
      compartment_names = [stratified_name ''infectious'' [(''smear'', ''smear_pos'')]],
      model_times = [0], strata = [''smear'']\<rparr>"

definition partly_stratified_model :: model_object where
  "partly_stratified_model =
     \<lparr>outputs = [[999 / 1000, 1 / 1000]],
      compartment_names = [stratified_name ''susceptible'' [],
                           stratified_name ''infectious'' [(''smear'', ''smearpos'')]],
      model_times = [1800], strata = [''smear'']\<rparr>"



definition example_model :: model_object where
  "example_model =
     \<lparr>outputs = [[1, 2], [3, 4]],
      compartment_names = [''early_latentXage_5Xstrain_ds'', ''infectiousXage_15Xstrain_mdr''],
      model_times = [2019, 2020], strata = [''age'', ''strain'']\<rparr>"

definition example_base :: "string \<Rightarrow> string" where
  "example_base name =
     (if name = ''early_latentXage_5Xstrain_ds'' then ''early_latent'' else ''infectious'')"

definition example_vals :: "string \<Rightarrow> string list" where
  "example_vals name =
     (if name = ''early_latentXage_5Xstrain_ds'' then [''5'', ''ds''] else [''15'', ''mdr''])"

section \<open>Running a model with parameters, in \<open>calibration.py\<close>\<close>

text \<open>
  Whether \<open>run_model_with_params\<close> leaves the base model alone depends on which objects
  are shared, so the objects live in a store: a list of cells, the address of an object
  being its index, and a new object being appended at the end. A model object holds the
  addresses of its list of compartment names, its list of flows, its dict of parameters
  and its dict of time-variant functions, and, once it has run, its outputs.
\<close>

type_synonym addr = nat

record stratified_model =
  names_at :: addr
  flows_at :: addr
  parameters_at :: addr
  time_variants_at :: addr
  model_outputs :: "real list list option"

datatype pyobj =
    NameList "string list"
  | FlowList "flow list"
  | ParamDict "string \<rightharpoonup> real"
  | FunDict "string \<rightharpoonup> (real \<Rightarrow> real)"
  | Model stratified_model

type_synonym store = "pyobj list"

definition lookup :: "store \<Rightarrow> addr \<Rightarrow> pyobj option" where
  "lookup h a = (if a < length h then Some (h ! a) else None)"

text \<open>
  The further fields of the \<open>Calibration\<close> object that the method touches: the two model
  references, the post-processing object (of which the fields \<open>model\<close> and
  \<open>generated_outputs\<close> are written here) and the targeted outputs.
\<close>

record post_processing =
  pp_model :: addr
  generated_outputs :: "(string \<times> real list) list"

record ('m, 't) calibration_run = "('m, 't) calibration" +
  base_model :: addr
  running_model :: "addr option"
  post_processing :: "post_processing option"
  targeted_outputs :: "target list"

text \<open>
  The model class and the post-processing class (\<open>summer_model.py\<close>,
  \<open>post_processing.py\<close>) are not among the sources; what the method calls of them are
  parameters: the model builder, \<open>run_model\<close>, the constructor \<open>PostProcessing\<close> and its
  method \<open>generate_outputs\<close>. Each takes the store and returns its result, or the
  exception it raises, with the store it leaves.
\<close>

record summer =
  model_builder :: "real \<Rightarrow> store \<Rightarrow> (py_error + addr) \<times> store"
  run_model :: "store \<Rightarrow> addr \<Rightarrow> py_error option \<times> store"
  PostProcessing ::
    "store \<Rightarrow> addr \<Rightarrow> string list \<Rightarrow> (string \<rightharpoonup> int list) \<Rightarrow> (py_error + post_processing) \<times> store"
  generate_outputs :: "store \<Rightarrow> post_processing \<Rightarrow> py_error option \<times> post_processing \<times> store"

text \<open>
  \<open>copy.deepcopy\<close> of a model: every object the model refers to is copied into a new
  cell, and so is the model object, with its references redirected to the copies. The
  functions held by the dict of time-variant functions are copied as they are. The four
  objects of a model are taken to be different objects.
\<close>

definition deepcopy :: "store \<Rightarrow> addr \<Rightarrow> (py_error + addr) \<times> store" where
  "deepcopy h a =
     (case lookup h a of
        Some (Model m) \<Rightarrow>
          (case (lookup h (names_at m), lookup h (flows_at m),
                 lookup h (parameters_at m), lookup h (time_variants_at m)) of
             (Some c, Some f, Some p, Some t) \<Rightarrow>
               (let n = length h
                in (Inr (n + 4),
                    h @ [c, f, p, t,
                         Model (m\<lparr>names_at := n, flows_at := n + 1,
                                  parameters_at := n + 2, time_variants_at := n + 3\<rparr>)]))
           | _ \<Rightarrow> (Inl TypeError, h))
      | _ \<Rightarrow> (Inl TypeError, h))"

text \<open>
  \<^verbatim>\<open>self.running_model.parameters[param_name] = value\<close>: the write goes to the dict
  that the running model's \<open>parameters\<close> refers to.
\<close>

definition set_parameter :: "addr \<Rightarrow> string \<Rightarrow> real \<Rightarrow> store \<Rightarrow> py_error option \<times> store" where
  "set_parameter model name v h =
     (case lookup h model of
        Some (Model m) \<Rightarrow>
          (case lookup h (parameters_at m) of
             Some (ParamDict d) \<Rightarrow> (None, h[parameters_at m := ParamDict (d(name \<mapsto> v))])
           | _ \<Rightarrow> (Some TypeError, h))
      | _ \<Rightarrow> (Some AttributeError, h))"

text \<open>
  \<^verbatim>\<open>
  for i in range(len(params)):
      param_name = self.priors[i]['param_name']
      if param_name != 'start_time':
          value = params[i]
          self.running_model.parameters[param_name] = value
  \<close>
  Reading \<open>self.priors[i]\<close> beyond the last prior raises IndexError.
\<close>

fun update_parameter_values ::
  "prior list \<Rightarrow> real list \<Rightarrow> addr \<Rightarrow> store \<Rightarrow> py_error option \<times> store" where
  "update_parameter_values ps [] model h = (None, h)"
| "update_parameter_values [] (v # vs) model h = (Some IndexError, h)"
| "update_parameter_values (p # ps) (v # vs) model h =
     (if param_name p \<noteq> ''start_time'' then
        (case set_parameter model (param_name p) v h of
           (Some e, h') \<Rightarrow> (Some e, h')
         | (None, h') \<Rightarrow> update_parameter_values ps vs model h')
      else update_parameter_values ps vs model h)"

text \<open>
  \<open>param_list\<close> is set by the constructor to the parameter names of the priors;
  \<open>list_index\<close> is \<open>list.index\<close> for an element that occurs.
\<close>

definition param_list :: "('m, 't, 'z) calibration_scheme \<Rightarrow> string list" where
  "param_list self = map param_name (priors self)"

fun list_index :: "'a list \<Rightarrow> 'a \<Rightarrow> nat" where
  "list_index [] x = 0"
| "list_index (y # ys) x = (if y = x then 0 else Suc (list_index ys x))"

text \<open>
  \<^verbatim>\<open>
  def update_post_processing(self):
      if self.post_processing is None:
          requested_outputs = [self.targeted_outputs[i]['output_key'] for i in ...]
          requested_times = {}
          for output in self.targeted_outputs:
              requested_times[output['output_key']] = output['years']
          self.post_processing = post_proc.PostProcessing(self.running_model, requested_outputs, requested_times)
      else:
          self.post_processing.model = self.running_model
          self.post_processing.generated_outputs = {}
          self.post_processing.generate_outputs()
  \<close>
\<close>

definition update_post_processing ::
  "summer \<Rightarrow> ('m, 't) calibration_run \<Rightarrow> store
     \<Rightarrow> py_error option \<times> ('m, 't) calibration_run \<times> store" where
  "update_post_processing api self h =
     (case post_processing self of
        None \<Rightarrow>
          (let requested_outputs = map output_key (targeted_outputs self);
               requested_times =
                 fold (\<lambda>output m. m(output_key output \<mapsto> years output))
                   (targeted_outputs self) Map.empty
           in case running_model self of
                None \<Rightarrow> (Some AttributeError, self, h)
              | Some model \<Rightarrow>
                  (case PostProcessing api h model requested_outputs requested_times of
                     (Inl e, h') \<Rightarrow> (Some e, self, h')
                   | (Inr pp, h') \<Rightarrow> (None, self\<lparr>post_processing := Some pp\<rparr>, h')))
      | Some pp \<Rightarrow>
          (case running_model self of
             None \<Rightarrow> (Some AttributeError, self, h)
           | Some model \<Rightarrow>
               (case generate_outputs api h (pp\<lparr>pp_model := model, generated_outputs := []\<rparr>) of
                  (e, pp', h') \<Rightarrow> (e, self\<lparr>post_processing := Some pp'\<rparr>, h'))))"

text \<open>
  \<^verbatim>\<open>
  def run_model_with_params(self, params):
      if 'start_time' in self.param_list:  # we need to re-build a model
          this_param_index = self.param_list.index('start_time')
          self.running_model = self.model_builder(start_time=params[this_param_index])
      else:  # we cjust need to copy the existing base_model
          self.running_model = copy.deepcopy(self.base_model)  # reset running model
      ...                                   # the loop over params, above
      self.running_model.run_model()
      self.update_post_processing()
  \<close>
  The result is the exception raised, if any, the object after the call and the store
  after the call.
\<close>

definition reset_running_model ::
  "summer \<Rightarrow> ('m, 't) calibration_run \<Rightarrow> real list \<Rightarrow> store \<Rightarrow> (py_error + addr) \<times> store" where
  "reset_running_model api self params h =
     (if ''start_time'' \<in> set (param_list self) then
        (let this_param_index = list_index (param_list self) ''start_time''
         in case py_index params this_param_index of
              Inl e \<Rightarrow> (Inl e, h)
            | Inr start_time \<Rightarrow> model_builder api start_time h)
      else deepcopy h (base_model self))"

definition run_model_with_params ::
  "summer \<Rightarrow> ('m, 't) calibration_run \<Rightarrow> real list \<Rightarrow> store
     \<Rightarrow> py_error option \<times> ('m, 't) calibration_run \<times> store" where
  "run_model_with_params api self params h =
     (case reset_running_model api self params h of
        (Inl e, h1) \<Rightarrow> (Some e, self, h1)
      | (Inr model, h1) \<Rightarrow>
          (let self1 = self\<lparr>running_model := Some model\<rparr>
           in case update_parameter_values (priors self1) params model h1 of
                (Some e, h2) \<Rightarrow> (Some e, self1, h2)
              | (None, h2) \<Rightarrow>
                  (case run_model api h2 model of
                     (Some e, h3) \<Rightarrow> (Some e, self1, h3)
                   | (None, h3) \<Rightarrow> update_post_processing api self1 h3)))"

text \<open>
  What the frame property is stated with. \<open>read_model\<close> reads the four objects of a
  model. A call on a model owns the model object and the four objects it refers to. The
  assumption on the absent classes is that a call on a model is confined to it: it
  changes no existing cell that the model does not own, it frees nothing, and afterwards
  the model refers only to objects it owned before or that are new. \<open>kept n model h h'\<close>
  says that the first \<open>n\<close> cells of \<open>h'\<close> are those of \<open>h\<close> and that the model owns
  nothing among them. \<open>overrides\<close> is the dict that the loop over the parameter vector
  makes of a dict.
\<close>

definition read_model :: "store \<Rightarrow> addr \<Rightarrow> (pyobj \<times> pyobj \<times> pyobj \<times> pyobj) option" where
  "read_model h a =
     (case lookup h a of
        Some (Model m) \<Rightarrow>
          (case (lookup h (names_at m), lookup h (flows_at m),
                 lookup h (parameters_at m), lookup h (time_variants_at m)) of
             (Some c, Some f, Some p, Some t) \<Rightarrow> Some (c, f, p, t)
           | _ \<Rightarrow> None)
      | _ \<Rightarrow> None)"

definition owned :: "store \<Rightarrow> addr \<Rightarrow> addr set" where
  "owned h a =
     (case lookup h a of
        Some (Model m) \<Rightarrow> {a, names_at m, flows_at m, parameters_at m, time_variants_at m}
      | _ \<Rightarrow> {a})"

definition confined :: "addr \<Rightarrow> store \<Rightarrow> store \<Rightarrow> bool" where
  "confined a h h' \<longleftrightarrow>
     length h \<le> length h'
     \<and> (\<forall>b < length h. b \<notin> owned h a \<longrightarrow> h' ! b = h ! b)
     \<and> owned h' a \<subseteq> owned h a \<union> {b. length h \<le> b}"

definition summer_confined :: "summer \<Rightarrow> bool" where
  "summer_confined api \<longleftrightarrow>
     (\<forall>h a. confined a h (snd (run_model api h a)))
     \<and> (\<forall>h a ro rt. confined a h (snd (PostProcessing api h a ro rt)))
     \<and> (\<forall>h pp. confined (pp_model pp) h (snd (snd (generate_outputs api h pp))))"

definition kept :: "nat \<Rightarrow> addr \<Rightarrow> store \<Rightarrow> store \<Rightarrow> bool" where
  "kept n model h h' \<longleftrightarrow>
     n \<le> length h' \<and> (\<forall>a < n. h' ! a = h ! a) \<and> owned h' model \<subseteq> {b. n \<le> b}"

fun overrides :: "prior list \<Rightarrow> real list \<Rightarrow> (string \<rightharpoonup> real) \<Rightarrow> (string \<rightharpoonup> real)" where
  "overrides ps [] d = d"
| "overrides [] (v # vs) d = d"
| "overrides (p # ps) (v # vs) d =
     overrides ps vs (if param_name p \<noteq> ''start_time'' then d(param_name p \<mapsto> v) else d)"

text \<open>
  A store holding one model, stand-ins for the absent classes (\<open>run_model\<close> writes the
  outputs of the model it is called on), and a calibration object over that model whose
  priors do not include \<open>start_time\<close>.
\<close>

definition example_store :: store where
  "example_store =
     [NameList [''susceptible'', ''early_latent'', ''late_latent'', ''infectious'', ''recovered''],
      FlowList [],
      ParamDict [''contact_rate'' \<mapsto> 20, ''recovery'' \<mapsto> 0.4 / 3],
      FunDict Map.empty,
      Model \<lparr>names_at = 0, flows_at = 1, parameters_at = 2, time_variants_at = 3,
             model_outputs = None\<rparr>]"

definition example_summer :: summer where
  "example_summer =
     \<lparr>model_builder = (\<lambda>start_time h. (Inl ValueError, h)),
      run_model = (\<lambda>h a. case lookup h a of
                      Some (Model m) \<Rightarrow> (None, h[a := Model (m\<lparr>model_outputs := Some [[1]]\<rparr>)])
                    | _ \<Rightarrow> (Some AttributeError, h)),
      PostProcessing = (\<lambda>h a requested_outputs requested_times.
                          (Inr \<lparr>pp_model = a, generated_outputs = []\<rparr>, h)),
      generate_outputs = (\<lambda>h pp. (None, pp, h))\<rparr>"

definition example_run :: "(nat, nat) calibration_run" where
  "example_run =
     \<lparr>priors =
        [\<lparr>param_name = ''contact_rate'', distribution = ''uniform'', distri_params = [2, 100]\<rparr>,
         \<lparr>param_name = ''late_progression'', distribution = ''uniform'',
          distri_params = [0.001, 0.003]\<rparr>],
      mle_estimates = 0, mcmc_trace = None,
      base_model = 4, running_model = None, post_processing = None, targeted_outputs = []\<rparr>"

section \<open>Derivative assembly and integration\<close>

text \<open>
  Modelled from the spec: the model class \<open>StratifiedModel\<close>, with its derivative assembly
  and its method \<open>run_model\<close>, is in \<open>summer_model.py\<close>, which is not among the sources.
  What follows is sections 3, 4.1 and 4.4 of the specification, with populations and
  rates as reals. The model holds the time grid, the ordered compartment names, the
  initial population vector in that order, the parameter map, the map of time-variant
  functions, the flow list (flows as the dicts that \<open>tb_model.py\<close> builds), the
  compartments flagged infectious with their infectiousness weights (default 1), the
  entry compartment and the birth approach.
\<close>

record summer_model =
  integration_times :: "real list"
  compartment_list :: "string list"
  initial_values :: "real list"
  parameter_values :: "string \<rightharpoonup> real"
  time_variant_functions :: "string \<rightharpoonup> (real \<Rightarrow> real)"
  transition_flows :: "flow list"
  infectious_compartments :: "string list"
  infectiousness_adjustments :: "string \<rightharpoonup> real"
  entry_compartment :: string
  birth_approach :: string

text \<open>
  Modelled from the spec: rate resolution (section 4.4), absent with \<open>summer_model.py\<close>. A
  parameter name resolves to the value of its time-variant function at the query time,
  or else to its constant; a name in neither map is fatal. The time-variant function
  comes first: \<open>build_working_tb_model\<close> keeps a constant \<open>case_detection\<close> of 0 and then
  registers the time-variant \<open>case_detection\<close> that is to drive the flow.
\<close>

fun position :: "string list \<Rightarrow> string \<Rightarrow> nat option" where
  "position [] name = None"
| "position (n # ns) name = (if n = name then Some 0 else map_option Suc (position ns name))"

definition resolve :: "summer_model \<Rightarrow> string \<Rightarrow> real \<Rightarrow> py_error + real" where
  "resolve m name t =
     (case time_variant_functions m name of
        Some f \<Rightarrow> Inr (f t)
      | None \<Rightarrow> (case parameter_values m name of Some v \<Rightarrow> Inr v | None \<Rightarrow> Inl KeyError))"

text \<open>
  Modelled from the spec: the force of infection (section 4.4), absent with
  \<open>summer_model.py\<close>. For a frequency-dependent infection flow the rate is the resolved
  parameter times the weighted infectious population divided by the total population;
  for a density-dependent one the denominator is omitted; any other flow has the
  resolved parameter as its rate. The division raises on a total of zero.
\<close>

definition weighted_infectious :: "summer_model \<Rightarrow> real list \<Rightarrow> real" where
  "weighted_infectious m y =
     sum_list (map (\<lambda>(name, v).
                 if name \<in> set (infectious_compartments m)
                 then (case infectiousness_adjustments m name of Some w \<Rightarrow> w | None \<Rightarrow> 1) * v
                 else 0)
               (zip (compartment_list m) y))"

definition flow_rate :: "summer_model \<Rightarrow> real \<Rightarrow> real list \<Rightarrow> flow \<Rightarrow> py_error + real" where
  "flow_rate m t y fl =
     (case fl ''parameter'' of
        None \<Rightarrow> Inl KeyError
      | Some p \<Rightarrow>
          (case resolve m p t of
             Inl e \<Rightarrow> Inl e
           | Inr r \<Rightarrow>
               if fl ''type'' = Some ''infection_frequency'' then
                 (if sum_list y = 0 then Inl ZeroDivisionError
                  else Inr (r * weighted_infectious m y / sum_list y))
               else if fl ''type'' = Some ''infection_density'' then
                 Inr (r * weighted_infectious m y)
               else Inr r))"

text \<open>
  Modelled from the spec: the contribution of one flow to the derivative (section 4.4),
  absent with \<open>summer_model.py\<close>. The flow subtracts rate times origin population from
  the origin and adds it to the destination, if any; a death flow subtracts only, and
  what it subtracts counts towards the deaths. A flow without a destination is a pure
  death (section 3: the destination is absent for pure deaths). A compartment that the
  model does not have is an error.
\<close>

definition apply_flow ::
  "summer_model \<Rightarrow> real \<Rightarrow> real list \<Rightarrow> flow \<Rightarrow> real list \<times> real \<Rightarrow> py_error + real list \<times> real" where
  "apply_flow m t y fl acc =
     (case acc of (dy, deaths) \<Rightarrow>
        (case flow_rate m t y fl of
           Inl e \<Rightarrow> Inl e
         | Inr r \<Rightarrow>
             (case Option.bind (fl ''origin'') (position (compartment_list m)) of
                None \<Rightarrow> Inl ValueError
              | Some i \<Rightarrow>
                  (let net = r * y ! i;
                       dy1 = dy[i := dy ! i - net]
                   in if fl ''type'' = Some ''compartment_death'' then Inr (dy1, deaths + net)
                      else (case fl ''to'' of
                              None \<Rightarrow> Inr (dy1, deaths + net)
                            | Some dest \<Rightarrow>
                                (case position (compartment_list m) dest of
                                   None \<Rightarrow> Inl ValueError
                                 | Some j \<Rightarrow> Inr (dy1[j := dy1 ! j + net], deaths)))))))"

fun apply_flows ::
  "summer_model \<Rightarrow> real \<Rightarrow> real list \<Rightarrow> flow list \<Rightarrow> real list \<times> real \<Rightarrow> py_error + real list \<times> real" where
  "apply_flows m t y [] acc = Inr acc"
| "apply_flows m t y (fl # fls) acc =
     (case apply_flow m t y fl acc of
        Inl e \<Rightarrow> Inl e
      | Inr acc' \<Rightarrow> apply_flows m t y fls acc')"

text \<open>
  Modelled from the spec: the derivative vector (section 4.4), absent with
  \<open>summer_model.py\<close>. After the flows, the universal death rate is applied to every
  compartment, and under \<open>replace_deaths\<close> the total of all deaths at that instant is
  injected into the entry compartment. The specification leaves the other birth
  approaches open; none is modelled, and they inject nothing here.
\<close>

definition derivative :: "summer_model \<Rightarrow> real \<Rightarrow> real list \<Rightarrow> py_error + real list" where
  "derivative m t y =
     (if length y \<noteq> length (compartment_list m) then Inl ValueError
      else case apply_flows m t y (transition_flows m) (map (\<lambda>v. 0) y, 0) of
        Inl e \<Rightarrow> Inl e
      | Inr (dy, flow_deaths) \<Rightarrow>
          (case resolve m ''universal_death_rate'' t of
             Inl e \<Rightarrow> Inl e
           | Inr mu \<Rightarrow>
               (let dy1 = map (\<lambda>(d, v). d - mu * v) (zip dy y);
                    total_deaths = flow_deaths + mu * sum_list y
                in if birth_approach m = ''replace_deaths'' then
                     (case position (compartment_list m) (entry_compartment m) of
                        None \<Rightarrow> Inl ValueError
                      | Some i \<Rightarrow> Inr (dy1[i := dy1 ! i + total_deaths]))
                   else Inr dy1)))"

text \<open>
  Modelled from the spec: the integration driver \<open>run_model\<close> (sections 4.4 and 7), absent
  with \<open>summer_model.py\<close>. The specification asks for a numerical solver run from the
  initial population vector and sampled at exactly the grid times, and accepts an
  explicit method with adaptive steps. The driver here is an explicit Runge-Kutta method
  with any tableau (nodes, coefficient rows, weights), stepping from each grid time to
  the next through the intermediate times that a step controller chooses, of which
  nothing is assumed. A negative compartment value that a step produces is recovered as
  section 7 prescribes: it is clamped to zero, the run continues from the clamped
  state, and the occurrence is recorded. The output has one row per grid time, the first
  being the initial vector, and comes with the number of values that were clamped, the
  record of the numerical-instability warnings. An error of the derivative ends the
  run. Arithmetic is exact; the reals have no non-finite value.
\<close>

definition vadd :: "real list \<Rightarrow> real list \<Rightarrow> real list" where
  "vadd xs ys = map (\<lambda>(x, y). x + y) (zip xs ys)"

definition vscale :: "real \<Rightarrow> real list \<Rightarrow> real list" where
  "vscale c xs = map (\<lambda>x. c * x) xs"

record tableau =
  nodes :: "real list"
  coefficients :: "real list list"
  weights :: "real list"

definition combine :: "real list \<Rightarrow> real \<Rightarrow> real list \<Rightarrow> real list list \<Rightarrow> real list" where
  "combine y h a ks = fold (\<lambda>(aj, kj) acc. vadd acc (vscale (h * aj) kj)) (zip a ks) y"

type_synonym rhs = "real \<Rightarrow> real list \<Rightarrow> py_error + real list"

fun rk_stages ::
  "rhs \<Rightarrow> real \<Rightarrow> real \<Rightarrow> real list \<Rightarrow> (real \<times> real list) list \<Rightarrow> real list list
     \<Rightarrow> py_error + real list list" where
  "rk_stages f t h y [] ks = Inr ks"
| "rk_stages f t h y ((c, a) # rows) ks =
     (case f (t + c * h) (combine y h a ks) of
        Inl e \<Rightarrow> Inl e
      | Inr k \<Rightarrow> rk_stages f t h y rows (ks @ [k]))"

definition rk_step :: "rhs \<Rightarrow> tableau \<Rightarrow> real \<Rightarrow> real \<Rightarrow> real list \<Rightarrow> py_error + real list" where
  "rk_step f tab t h y =
     (case rk_stages f t h y (zip (nodes tab) (coefficients tab)) [] of
        Inl e \<Rightarrow> Inl e
      | Inr ks \<Rightarrow> Inr (combine y h (weights tab) ks))"

text \<open>
  Modelled from the spec: the recovery from a negative compartment value (section 7),
  absent with \<open>summer_model.py\<close>. \<open>clamp\<close> sets every negative entry of a state to zero
  and \<open>negatives\<close> counts them. The state that a step returns is clamped before the next
  step starts from it and before it is sampled, and what was clamped is added to the
  count of warnings; the stage states within one step are not touched.
\<close>

definition clamp :: "real list \<Rightarrow> real list" where
  "clamp y = map (max 0) y"

definition negatives :: "real list \<Rightarrow> nat" where
  "negatives y = length (filter (\<lambda>v. v < 0) y)"

fun rk_path ::
  "rhs \<Rightarrow> tableau \<Rightarrow> real \<Rightarrow> real list \<Rightarrow> real list \<Rightarrow> py_error + real list \<times> nat" where
  "rk_path f tab t y [] = Inr (y, 0)"
| "rk_path f tab t y (t' # ts) =
     (case rk_step f tab t (t' - t) y of
        Inl e \<Rightarrow> Inl e
      | Inr y' \<Rightarrow>
          (case rk_path f tab t' (clamp y') ts of
             Inl e \<Rightarrow> Inl e
           | Inr (y'', warnings) \<Rightarrow> Inr (y'', negatives y' + warnings)))"

type_synonym controller = "real \<Rightarrow> real \<Rightarrow> real list \<Rightarrow> real list"

fun sample ::
  "rhs \<Rightarrow> tableau \<Rightarrow> controller \<Rightarrow> real \<Rightarrow> real list \<Rightarrow> real list
     \<Rightarrow> py_error + real list list \<times> nat" where
  "sample f tab ctrl t y [] = Inr ([], 0)"
| "sample f tab ctrl t y (t' # grid) =
     (case rk_path f tab t y (ctrl t t' y @ [t']) of
        Inl e \<Rightarrow> Inl e
      | Inr (y', warnings) \<Rightarrow>
          (case sample f tab ctrl t' y' grid of
             Inl e \<Rightarrow> Inl e
           | Inr (rows, warnings') \<Rightarrow> Inr (y' # rows, warnings + warnings')))"

definition run_model_spec ::
  "tableau \<Rightarrow> controller \<Rightarrow> summer_model \<Rightarrow> py_error + real list list \<times> nat" where
  "run_model_spec tab ctrl m =
     (case integration_times m of
        [] \<Rightarrow> Inr ([], 0)
      | t0 # grid \<Rightarrow>
          (case sample (derivative m) tab ctrl t0 (initial_values m) grid of
             Inl e \<Rightarrow> Inl e
           | Inr (rows, warnings) \<Rightarrow> Inr (initial_values m # rows, warnings)))"

text \<open>The tableaux of the forward Euler method and of the classical method of order four.\<close>

definition euler :: tableau where
  "euler = \<lparr>nodes = [0], coefficients = [[]], weights = [1]\<rparr>"

definition rk4 :: tableau where
  "rk4 = \<lparr>nodes = [0, 1 / 2, 1 / 2, 1],
           coefficients = [[], [1 / 2], [0, 1 / 2], [0, 0, 1]],
           weights = [1 / 6, 1 / 3, 1 / 3, 1 / 6]\<rparr>"

text \<open>
  What conservation is stated with. A flow resolves in a model when its parameter is
  known, its origin is a compartment, and its destination, if it has one and is no
  death flow, is a compartment; a model resolves when its flows do, the universal death
  rate is known, the entry compartment is a compartment, the initial vector has one
  entry per compartment, and the initial total is positive. A right-hand side is
  conserving for \<open>n\<close> compartments when every derivative it returns is for a state of
  length \<open>n\<close>, has length \<open>n\<close> and sums to zero, and it is defined on the states of length
  \<open>n\<close> and total \<open>P\<close> when it returns a derivative for each.
\<close>

definition flow_resolves :: "summer_model \<Rightarrow> flow \<Rightarrow> bool" where
  "flow_resolves m fl \<longleftrightarrow>
     (\<exists>p \<in> dom (time_variant_functions m) \<union> dom (parameter_values m).
          fl ''parameter'' = Some p)
     \<and> (\<exists>origin \<in> set (compartment_list m). fl ''origin'' = Some origin)
     \<and> (fl ''type'' = Some ''compartment_death'' \<or> fl ''to'' = None
        \<or> (\<exists>dest \<in> set (compartment_list m). fl ''to'' = Some dest))"

definition model_resolves :: "summer_model \<Rightarrow> bool" where
  "model_resolves m \<longleftrightarrow>
     (\<forall>fl \<in> set (transition_flows m). flow_resolves m fl)
     \<and> ''universal_death_rate'' \<in> dom (time_variant_functions m) \<union> dom (parameter_values m)
     \<and> entry_compartment m \<in> set (compartment_list m)
     \<and> length (initial_values m) = length (compartment_list m)
     \<and> 0 < sum_list (initial_values m)"

definition conserving :: "rhs \<Rightarrow> nat \<Rightarrow> bool" where
  "conserving f n \<longleftrightarrow>
     (\<forall>t y dy. f t y = Inr dy \<longrightarrow> length y = n \<and> length dy = n \<and> sum_list dy = 0)"

definition defined_on :: "rhs \<Rightarrow> nat \<Rightarrow> real \<Rightarrow> bool" where
  "defined_on f n P \<longleftrightarrow> (\<forall>t y. length y = n \<and> sum_list y = P \<longrightarrow> (\<exists>dy. f t y = Inr dy))"

text \<open>
  The unstratified model of \<open>build_working_tb_model\<close>: its compartments, the standard
  flows and the case-detection flow, on a time grid; the examples are the first
  interval of the grid of \<open>build_working_tb_model\<close> and the first two. The latency rates
  stand for the converted ones. One controller takes each interval of the grid in a
  single step, the other halves it.
\<close>

definition single_step :: controller where
  "single_step t t' y = []"

definition halving :: controller where
  "halving t t' y = [(t + t') / 2]"

definition unstratified_tb_model :: "real list \<Rightarrow> summer_model" where
  "unstratified_tb_model grid =
     \<lparr>integration_times = grid,
      compartment_list = compartments,
      initial_values = [0.999, 0, 0, 0.001, 0],
      parameter_values =
        [''beta'' \<mapsto> 40, ''recovery'' \<mapsto> 0.4 / 3, ''infect_death'' \<mapsto> 0.6 / 3,
         ''universal_death_rate'' \<mapsto> 1 / 50, ''case_detection'' \<mapsto> 0,
         ''early_progression'' \<mapsto> 0.4, ''stabilisation'' \<mapsto> 3.65, ''late_progression'' \<mapsto> 0.002],
      time_variant_functions = Map.empty,
      transition_flows = flows @
        [[''type'' \<mapsto> ''standard_flows'', ''parameter'' \<mapsto> ''case_detection'',
          ''origin'' \<mapsto> ''infectious'', ''to'' \<mapsto> ''recovered'']],
      infectious_compartments = [''infectious''],
      infectiousness_adjustments = Map.empty,
      entry_compartment = ''susceptible'',
      birth_approach = ''replace_deaths''\<rparr>"

definition example_tb_model :: summer_model where
  "example_tb_model = unstratified_tb_model [1800, 1801.1]"

definition two_interval_tb_model :: summer_model where
  "two_interval_tb_model = unstratified_tb_model [1800, 1801.1, 1802.2]"

section \<open>Function composition and the proportion-to-rate conversion\<close>

text \<open>
  Claim C4. For every pair of functions inner and outer and every input value t, the
  function returned by \<open>return_function_of_function inner outer\<close>, applied to t, equals
  \<open>outer (inner t)\<close>; the returned function is the composition of the two.
\<close>

theorem return_function_of_function_apply:
  "return_function_of_function inner outer t = outer (inner t)
   \<and> return_function_of_function inner outer = outer \<circ> inner"
  by (simp add: return_function_of_function_def fun_eq_iff)

text \<open>
  Claim C8. For a constant \<open>c\<close>, \<open>convert_competing_proportion_to_rate c\<close> maps a
  proportion \<open>p\<close> to \<open>p * c / (1 - p)\<close>: it returns that value for every \<open>p\<close> other than 1,
  the value is non-negative whenever \<open>0 \<le> p < 1\<close> and \<open>0 \<le> c\<close>, and at \<open>p = 1\<close> it raises
  ZeroDivisionError. Nothing guards the division: chained after a case-detection curve
  by \<open>return_function_of_function\<close>, the error surfaces at every time where the curve
  takes the value 1.
\<close>

theorem convert_competing_proportion_to_rate_spec:
  "(p \<noteq> 1 \<longrightarrow> convert_competing_proportion_to_rate c p = Inr (p * c / (1 - p)))
   \<and> (0 \<le> p \<and> p < 1 \<and> 0 \<le> c \<longrightarrow>
        (\<exists>r. convert_competing_proportion_to_rate c p = Inr r \<and> 0 \<le> r))
   \<and> convert_competing_proportion_to_rate c 1 = Inl ZeroDivisionError
   \<and> (cdr_scaleup t = 1 \<longrightarrow>
        return_function_of_function cdr_scaleup (convert_competing_proportion_to_rate c) t
          = Inl ZeroDivisionError)"
  by (simp add: convert_competing_proportion_to_rate_def return_function_of_function_def)

theorem convert_competing_proportion_to_rate_spec_witness:
  "(1 / 2 :: real) \<noteq> 1 \<and> (0::real) \<le> 1 / 2 \<and> (1 / 2 :: real) < 1 \<and> (0::real) \<le> 1 / 3
   \<and> convert_competing_proportion_to_rate (1 / 3) (1 / 2) = Inr (1 / 3)
   \<and> (\<exists>r. convert_competing_proportion_to_rate (1 / 3) (1 / 2) = Inr r \<and> 0 \<le> r)
   \<and> return_function_of_function (\<lambda>t. if 2000 \<le> t then 1 else 0)
         (convert_competing_proportion_to_rate (1 / 3)) (2010::real) = Inl ZeroDivisionError"
proof -
  note th = convert_competing_proportion_to_rate_spec
    [of "1 / 2" "1 / 3" "\<lambda>t. if 2000 \<le> t then 1 else 0" "2010::real"]
  have a: "convert_competing_proportion_to_rate (1 / 3) (1 / 2) = Inr (1 / 2 * (1 / 3) / (1 - 1 / 2))"
    using th by simp
  have c: "return_function_of_function (\<lambda>t. if 2000 \<le> t then 1 else 0)
         (convert_competing_proportion_to_rate (1 / 3)) (2010::real) = Inl ZeroDivisionError"
    using th by simp
  from a have a': "convert_competing_proportion_to_rate (1 / 3) (1 / 2) = Inr (1 / 3)"
    by simp
  have b: "\<exists>r. convert_competing_proportion_to_rate (1 / 3) (1 / 2) = Inr r \<and> 0 \<le> r"
    unfolding a' by (rule exI [of _ "1 / 3"]) simp
  show ?thesis using a' b c by simp
qed

section \<open>The returned functions are stateless\<close>

lemma pure_callable_lift: "pure_callable (lift_pure g)"
  by (simp add: pure_callable_def lift_pure_def)

lemma pure_callable_convert: "pure_callable (convert_competing_proportion_to_rate_call c)"
  by (simp add: pure_callable_def convert_competing_proportion_to_rate_call_def)

text \<open>The two readings of the closures agree on pure arguments.\<close>

lemma convert_call_lift:
  "convert_competing_proportion_to_rate_call c = lift_pure (convert_competing_proportion_to_rate c)"
  by (simp add: convert_competing_proportion_to_rate_call_def lift_pure_def
      convert_competing_proportion_to_rate_def fun_eq_iff)

lemma return_function_of_function_call_lift:
  "return_function_of_function_call (lift_pure (\<lambda>x. Inr (inner x))) (lift_pure outer)
     = lift_pure (return_function_of_function inner outer)"
  by (simp add: return_function_of_function_call_def lift_pure_def
      return_function_of_function_def fun_eq_iff)

lemma pure_callable_compose:
  assumes "pure_callable inner" and "pure_callable outer"
  shows "pure_callable (return_function_of_function_call inner outer)"
proof -
  have i1: "snd (inner x s) = s" and i2: "fst (inner x s) = fst (inner x s')" for x s s'
    using assms(1) by (simp_all add: pure_callable_def)
  have o1: "snd (outer x s) = s" and o2: "fst (outer x s) = fst (outer x s')" for x s s'
    using assms(2) by (simp_all add: pure_callable_def)
  have inner_eq: "inner x s = (fst (inner x undefined), s)" for x s
    using i1 [of x s] i2 [of x s undefined] by (simp add: prod_eq_iff)
  have outer_eq: "outer x s = (fst (outer x undefined), s)" for x s
    using o1 [of x s] o2 [of x s undefined] by (simp add: prod_eq_iff)
  show ?thesis
    unfolding pure_callable_def return_function_of_function_call_def
    by (subst (1 2 3) inner_eq, subst (1 2 3) outer_eq) (simp split: sum.splits)
qed

lemma evaluations_pure:
  assumes "pure_callable f"
  shows "evaluations f xs s = (map (\<lambda>x. fst (f x s0)) xs, s)"
proof (induction xs)
  case Nil
  then show ?case by simp
next
  case (Cons x xs)
  have "f x s = (fst (f x s0), s)"
    using assms by (simp add: pure_callable_def prod_eq_iff)
  then show ?case using Cons by simp
qed

lemma evaluations_pure_results:
  assumes "pure_callable f" and "evaluations f xs s = (rs, s')"
  shows "s' = s \<and> length rs = length xs
         \<and> (\<forall>i < length xs. \<forall>j < length xs. xs ! i = xs ! j \<longrightarrow> rs ! i = rs ! j)"
  using assms(2) unfolding evaluations_pure [OF assms(1), of xs s s] by auto

text \<open>
  Claim C7. The functions returned by \<open>return_function_of_function\<close> and
  \<open>convert_competing_proportion_to_rate\<close> are stateless and free of side effects: when the
  captured \<open>inner\<close> and \<open>outer\<close> are pure (the captured \<open>competing_flows\<close> is a float), the
  returned function is pure, and in every run of evaluations, whatever arguments come in
  whatever order and however many, the state at the end is the state at the start and
  any two evaluations at the same argument return the same result.
\<close>

theorem returned_functions_stateless:
  assumes "pure_callable inner" and "pure_callable outer"
  shows "pure_callable (return_function_of_function_call inner outer)
     \<and> pure_callable (convert_competing_proportion_to_rate_call c)
     \<and> (\<forall>xs s rs s'.
          evaluations (return_function_of_function_call inner outer) xs s = (rs, s') \<longrightarrow>
            s' = s \<and> length rs = length xs
            \<and> (\<forall>i < length xs. \<forall>j < length xs. xs ! i = xs ! j \<longrightarrow> rs ! i = rs ! j))
     \<and> (\<forall>ps s rs s'.
          evaluations (convert_competing_proportion_to_rate_call c) ps s = (rs, s') \<longrightarrow>
            s' = s \<and> length rs = length ps
            \<and> (\<forall>i < length ps. \<forall>j < length ps. ps ! i = ps ! j \<longrightarrow> rs ! i = rs ! j))"
proof -
  have p1: "pure_callable (return_function_of_function_call inner outer)"
    using assms by (rule pure_callable_compose)
  have p2: "pure_callable (convert_competing_proportion_to_rate_call c)"
    by (rule pure_callable_convert)
  show ?thesis
    using p1 p2 evaluations_pure_results [OF p1] evaluations_pure_results [OF p2]
    by blast
qed

theorem returned_functions_stateless_witness:
  "pure_callable (lift_pure (\<lambda>t::real. Inr (t / 4)) :: (nat, real, real) py_callable)
   \<and> pure_callable (convert_competing_proportion_to_rate_call (1 / 3) :: (nat, real, real) py_callable)
   \<and> evaluations
        (return_function_of_function_call (lift_pure (\<lambda>t::real. Inr (t / 4)))
           (convert_competing_proportion_to_rate_call (1 / 3)))
        [2, 4, 2] (7::nat)
      = ([Inr (1 / 3), Inl ZeroDivisionError, Inr (1 / 3)], 7)
   \<and> pure_callable
        (return_function_of_function_call (lift_pure (\<lambda>t::real. Inr (t / 4)))
           (convert_competing_proportion_to_rate_call (1 / 3)) :: (nat, real, real) py_callable)"
proof -
  let ?inner = "lift_pure (\<lambda>t::real. Inr (t / 4)) :: (nat, real, real) py_callable"
  let ?outer = "convert_competing_proportion_to_rate_call (1 / 3) :: (nat, real, real) py_callable"
  have pi: "pure_callable ?inner"
    by (simp add: pure_callable_def lift_pure_def)
  have po: "pure_callable ?outer"
    by (simp add: pure_callable_def convert_competing_proportion_to_rate_call_def)
  note th = returned_functions_stateless [OF pi po, of "1 / 3"]
  have ev: "evaluations (return_function_of_function_call ?inner ?outer) [2, 4, 2] (7::nat)
      = ([Inr (1 / 3), Inl ZeroDivisionError, Inr (1 / 3)], 7)"
    by (simp add: return_function_of_function_call_def lift_pure_def
        convert_competing_proportion_to_rate_call_def)
  from th have pc: "pure_callable (return_function_of_function_call ?inner ?outer)"
    by (rule conjunct1)
  from pi po ev pc show ?thesis by (intro conjI)
qed

section \<open>The standard flows\<close>

lemma flows_wellformed: "\<forall>f \<in> set flows. flow_wellformed f"
  by (simp add: flows_def add_standard_natural_history_flows_def add_standard_latency_flows_def
      add_standard_infection_flows_def flow_wellformed_def compartments_def)

lemma flows_one_death:
  "length (filter (\<lambda>f. f ''type'' = Some ''compartment_death'') flows) = 1"
  by (simp add: flows_def add_standard_natural_history_flows_def add_standard_latency_flows_def
      add_standard_infection_flows_def)

lemma add_flows_append:
  "add_standard_infection_flows fs = fs @ add_standard_infection_flows []"
  "add_standard_latency_flows fs = fs @ add_standard_latency_flows []"
  "add_standard_natural_history_flows fs = fs @ add_standard_natural_history_flows []"
  by (simp_all add: add_standard_natural_history_flows_def add_standard_latency_flows_def
      add_standard_infection_flows_def)

lemma add_flows_fields:
  "map flow_fields (add_standard_infection_flows []) =
     [(Some ''infection_frequency'', Some ''beta'', Some ''susceptible'', Some ''early_latent''),
      (Some ''infection_frequency'', Some ''beta'', Some ''recovered'', Some ''early_latent'')]"
  "map flow_fields (add_standard_latency_flows []) =
     [(Some ''standard_flows'', Some ''early_progression'', Some ''early_latent'', Some ''infectious''),
      (Some ''standard_flows'', Some ''stabilisation'', Some ''early_latent'', Some ''late_latent''),
      (Some ''standard_flows'', Some ''late_progression'', Some ''late_latent'', Some ''infectious'')]"
  "map flow_fields (add_standard_natural_history_flows []) =
     [(Some ''standard_flows'', Some ''recovery'', Some ''infectious'', Some ''recovered''),
      (Some ''compartment_death'', Some ''infect_death'', Some ''infectious'', None)]"
  by (simp_all add: add_standard_natural_history_flows_def add_standard_latency_flows_def
      add_standard_infection_flows_def flow_fields_def)

lemma add_flows_dom:
  "\<forall>f \<in> set (add_standard_infection_flows []). dom f \<subseteq> {''type'', ''parameter'', ''origin'', ''to''}"
  "\<forall>f \<in> set (add_standard_latency_flows []). dom f \<subseteq> {''type'', ''parameter'', ''origin'', ''to''}"
  "\<forall>f \<in> set (add_standard_natural_history_flows []). dom f \<subseteq> {''type'', ''parameter'', ''origin'', ''to''}"
  by (simp_all add: add_standard_natural_history_flows_def add_standard_latency_flows_def
      add_standard_infection_flows_def)

lemma flows_eq:
  "flows = add_standard_infection_flows [] @ add_standard_latency_flows []
             @ add_standard_natural_history_flows []"
  unfolding flows_def
  by (subst add_flows_append(3), subst add_flows_append(2)) simp

text \<open>
  Claim C6. Every flow in the list built by \<open>add_standard_infection_flows\<close>, then
  \<open>add_standard_latency_flows\<close>, then \<open>add_standard_natural_history_flows\<close> from the empty
  list has a type among \<open>infection_frequency\<close>, \<open>standard_flows\<close> and \<open>compartment_death\<close>, a
  parameter name, an origin in the base compartment list and a destination in that list,
  except the \<open>compartment_death\<close> flow, which has no \<open>to\<close> field and of which there is
  exactly one. Each helper returns the list it was given, unchanged and in order, followed
  by its own flows: the two infections of the susceptible and of the recovered at rate
  \<open>beta\<close>; early progression, stabilisation and late progression; recovery and the death of
  the infectious. A flow has no field but these.
\<close>

theorem standard_flows_wellformed:
  "(\<forall>f \<in> set flows. flow_wellformed f)
   \<and> length (filter (\<lambda>f. f ''type'' = Some ''compartment_death'') flows) = 1
   \<and> add_standard_infection_flows fs = fs @ add_standard_infection_flows []
   \<and> add_standard_latency_flows fs = fs @ add_standard_latency_flows []
   \<and> add_standard_natural_history_flows fs = fs @ add_standard_natural_history_flows []
   \<and> prefix fs (add_standard_infection_flows fs)
   \<and> prefix fs (add_standard_latency_flows fs)
   \<and> prefix fs (add_standard_natural_history_flows fs)
   \<and> map flow_fields (add_standard_infection_flows []) =
       [(Some ''infection_frequency'', Some ''beta'', Some ''susceptible'', Some ''early_latent''),
        (Some ''infection_frequency'', Some ''beta'', Some ''recovered'', Some ''early_latent'')]
   \<and> map flow_fields (add_standard_latency_flows []) =
       [(Some ''standard_flows'', Some ''early_progression'', Some ''early_latent'',
         Some ''infectious''),
        (Some ''standard_flows'', Some ''stabilisation'', Some ''early_latent'',
         Some ''late_latent''),
        (Some ''standard_flows'', Some ''late_progression'', Some ''late_latent'',
         Some ''infectious'')]
   \<and> map flow_fields (add_standard_natural_history_flows []) =
       [(Some ''standard_flows'', Some ''recovery'', Some ''infectious'', Some ''recovered''),
        (Some ''compartment_death'', Some ''infect_death'', Some ''infectious'', None)]
   \<and> (\<forall>f \<in> set flows. dom f \<subseteq> {''type'', ''parameter'', ''origin'', ''to''})
   \<and> flows = add_standard_infection_flows [] @ add_standard_latency_flows []
               @ add_standard_natural_history_flows []
   \<and> length flows = 7"
proof -
  have p1: "prefix fs (add_standard_infection_flows fs)"
    by (subst add_flows_append) simp
  have p2: "prefix fs (add_standard_latency_flows fs)"
    by (subst add_flows_append) simp
  have p3: "prefix fs (add_standard_natural_history_flows fs)"
    by (subst add_flows_append) simp
  have d: "\<forall>f \<in> set flows. dom f \<subseteq> {''type'', ''parameter'', ''origin'', ''to''}"
    unfolding flows_eq set_append ball_Un by (intro conjI add_flows_dom)
  have l: "length flows = 7"
    by (simp add: flows_def add_standard_natural_history_flows_def
        add_standard_latency_flows_def add_standard_infection_flows_def)
  show ?thesis
    by (intro conjI flows_wellformed flows_one_death add_flows_append p1 p2 p3
        add_flows_fields d flows_eq l)
qed

theorem standard_flows_wellformed_witness:
  "[''type'' \<mapsto> ''infection_frequency'', ''parameter'' \<mapsto> ''beta'',
    ''origin'' \<mapsto> ''recovered'', ''to'' \<mapsto> ''early_latent''] \<in> set flows
   \<and> flow_wellformed [''type'' \<mapsto> ''infection_frequency'', ''parameter'' \<mapsto> ''beta'',
       ''origin'' \<mapsto> ''recovered'', ''to'' \<mapsto> ''early_latent'']
   \<and> [''type'' \<mapsto> ''standard_flows'', ''parameter'' \<mapsto> ''stabilisation'',
       ''origin'' \<mapsto> ''early_latent'', ''to'' \<mapsto> ''late_latent''] \<in> set flows
   \<and> flow_wellformed [''type'' \<mapsto> ''standard_flows'', ''parameter'' \<mapsto> ''stabilisation'',
       ''origin'' \<mapsto> ''early_latent'', ''to'' \<mapsto> ''late_latent'']
   \<and> [''type'' \<mapsto> ''compartment_death'', ''parameter'' \<mapsto> ''infect_death'',
       ''origin'' \<mapsto> ''infectious''] \<in> set flows
   \<and> flow_wellformed [''type'' \<mapsto> ''compartment_death'', ''parameter'' \<mapsto> ''infect_death'',
        ''origin'' \<mapsto> ''infectious'']
   \<and> map flow_fields (add_standard_infection_flows [case_detection_flow]) =
       [(Some ''standard_flows'', Some ''case_detection'', Some ''infectious'', Some ''recovered''),
        (Some ''infection_frequency'', Some ''beta'', Some ''susceptible'', Some ''early_latent''),
        (Some ''infection_frequency'', Some ''beta'', Some ''recovered'', Some ''early_latent'')]
   \<and> map flow_fields (add_standard_latency_flows [case_detection_flow]) =
       [(Some ''standard_flows'', Some ''case_detection'', Some ''infectious'', Some ''recovered''),
        (Some ''standard_flows'', Some ''early_progression'', Some ''early_latent'',
         Some ''infectious''),
        (Some ''standard_flows'', Some ''stabilisation'', Some ''early_latent'',
         Some ''late_latent''),
        (Some ''standard_flows'', Some ''late_progression'', Some ''late_latent'',
         Some ''infectious'')]
   \<and> map flow_fields (add_standard_natural_history_flows [case_detection_flow]) =
       [(Some ''standard_flows'', Some ''case_detection'', Some ''infectious'', Some ''recovered''),
        (Some ''standard_flows'', Some ''recovery'', Some ''infectious'', Some ''recovered''),
        (Some ''compartment_death'', Some ''infect_death'', Some ''infectious'', None)]"
proof -
  let ?i = "[''type'' \<mapsto> ''infection_frequency'', ''parameter'' \<mapsto> ''beta'',
    ''origin'' \<mapsto> ''recovered'', ''to'' \<mapsto> ''early_latent''] :: flow"
  let ?s = "[''type'' \<mapsto> ''standard_flows'', ''parameter'' \<mapsto> ''stabilisation'',
       ''origin'' \<mapsto> ''early_latent'', ''to'' \<mapsto> ''late_latent''] :: flow"
  let ?d = "[''type'' \<mapsto> ''compartment_death'', ''parameter'' \<mapsto> ''infect_death'',
    ''origin'' \<mapsto> ''infectious''] :: flow"
  note th = standard_flows_wellformed [of "[case_detection_flow]"]
  have i: "?i \<in> set flows" and s: "?s \<in> set flows" and d: "?d \<in> set flows"
    by (simp_all add: flows_def add_standard_natural_history_flows_def
        add_standard_latency_flows_def add_standard_infection_flows_def)
  from th have w: "\<forall>f \<in> set flows. flow_wellformed f"
    by (rule conjunct1)
  have c: "flow_fields case_detection_flow
      = (Some ''standard_flows'', Some ''case_detection'', Some ''infectious'', Some ''recovered'')"
    by (simp add: flow_fields_def case_detection_flow_def)
  from th have e1: "add_standard_infection_flows [case_detection_flow]
      = [case_detection_flow] @ add_standard_infection_flows []"
    and e2: "add_standard_latency_flows [case_detection_flow]
      = [case_detection_flow] @ add_standard_latency_flows []"
    and e3: "add_standard_natural_history_flows [case_detection_flow]
      = [case_detection_flow] @ add_standard_natural_history_flows []"
    and f1: "map flow_fields (add_standard_infection_flows []) =
       [(Some ''infection_frequency'', Some ''beta'', Some ''susceptible'', Some ''early_latent''),
        (Some ''infection_frequency'', Some ''beta'', Some ''recovered'', Some ''early_latent'')]"
    and f2: "map flow_fields (add_standard_latency_flows []) =
       [(Some ''standard_flows'', Some ''early_progression'', Some ''early_latent'',
         Some ''infectious''),
        (Some ''standard_flows'', Some ''stabilisation'', Some ''early_latent'',
         Some ''late_latent''),
        (Some ''standard_flows'', Some ''late_progression'', Some ''late_latent'',
         Some ''infectious'')]"
    and f3: "map flow_fields (add_standard_natural_history_flows []) =
       [(Some ''standard_flows'', Some ''recovery'', Some ''infectious'', Some ''recovered''),
        (Some ''compartment_death'', Some ''infect_death'', Some ''infectious'', None)]"
    by (simp_all only:)
  have g1: "map flow_fields (add_standard_infection_flows [case_detection_flow]) =
       [(Some ''standard_flows'', Some ''case_detection'', Some ''infectious'', Some ''recovered''),
        (Some ''infection_frequency'', Some ''beta'', Some ''susceptible'', Some ''early_latent''),
        (Some ''infection_frequency'', Some ''beta'', Some ''recovered'', Some ''early_latent'')]"
    by (subst e1) (simp only: map_append list.map f1 c append.simps)
  have g2: "map flow_fields (add_standard_latency_flows [case_detection_flow]) =
       [(Some ''standard_flows'', Some ''case_detection'', Some ''infectious'', Some ''recovered''),
        (Some ''standard_flows'', Some ''early_progression'', Some ''early_latent'',
         Some ''infectious''),
        (Some ''standard_flows'', Some ''stabilisation'', Some ''early_latent'',
         Some ''late_latent''),
        (Some ''standard_flows'', Some ''late_progression'', Some ''late_latent'',
         Some ''infectious'')]"
    by (subst e2) (simp only: map_append list.map f2 c append.simps)
  have g3: "map flow_fields (add_standard_natural_history_flows [case_detection_flow]) =
       [(Some ''standard_flows'', Some ''case_detection'', Some ''infectious'', Some ''recovered''),
        (Some ''standard_flows'', Some ''recovery'', Some ''infectious'', Some ''recovered''),
        (Some ''compartment_death'', Some ''infect_death'', Some ''infectious'', None)]"
    by (subst e3) (simp only: map_append list.map f3 c append.simps)
  from w i have wi: "flow_wellformed ?i" by (rule bspec)
  from w s have ws: "flow_wellformed ?s" by (rule bspec)
  from w d have wd: "flow_wellformed ?d" by (rule bspec)
  show ?thesis
    by (intro conjI i s d wi ws wd g1 g2 g3)
qed

section \<open>Default standard deviations of the calibration targets\<close>

lemma workout_sd_prefix:
  "n \<le> length ts \<Longrightarrow>
   fold workout_sd [0..<n] ts = map with_default_sd (take n ts) @ drop n ts"
proof (induction n)
  case 0
  then show ?case by simp
next
  case (Suc n)
  then have n: "n < length ts" by simp
  let ?xs = "map with_default_sd (take n ts) @ drop n ts"
  have IH: "fold workout_sd [0..<n] ts = ?xs" using Suc by simp
  have nth: "?xs ! n = ts ! n"
    using n by (simp add: nth_append)
  have dr: "drop n ts = ts ! n # drop (Suc n) ts"
    using n by (simp add: Cons_nth_drop_Suc)
  have upd: "?xs[n := v] = map with_default_sd (take n ts) @ v # drop (Suc n) ts" for v
    using n dr by (simp add: list_update_append)
  have step: "workout_sd n ?xs
      = map with_default_sd (take n ts) @ with_default_sd (ts ! n) # drop (Suc n) ts"
    unfolding workout_sd_def Let_def nth upd with_default_sd_def
    using dr by simp
  have "fold workout_sd [0..<Suc n] ts = workout_sd n ?xs"
    using IH by simp
  also have "\<dots> = map with_default_sd (take (Suc n) ts) @ drop (Suc n) ts"
    using step n by (simp add: take_Suc_conv_app_nth)
  finally show ?case .
qed

lemma workout_unspecified_sds_map: "workout_unspecified_sds ts = map with_default_sd ts"
  using workout_sd_prefix [of "length ts" ts] by (simp add: workout_unspecified_sds_def)

text \<open>
  Claim C10. \<open>workout_unspecified_sds\<close> sets \<open>sd\<close> to \<open>(0.5 / 4)\<close> times the mean of the
  target's values for exactly the targets that lack an \<open>sd\<close>, leaves every target that
  has an \<open>sd\<close> as it is, and leaves every other field of every target unchanged.
\<close>

theorem workout_unspecified_sds_spec:
  "length (workout_unspecified_sds ts) = length ts
   \<and> (\<forall>i < length ts.
        (sd (ts ! i) = None \<longrightarrow>
           sd (workout_unspecified_sds ts ! i)
             = Some (np_times (0.5 / 4) (np_mean (target_values (ts ! i)))))
        \<and> (sd (ts ! i) \<noteq> None \<longrightarrow> workout_unspecified_sds ts ! i = ts ! i)
        \<and> output_key (workout_unspecified_sds ts ! i) = output_key (ts ! i)
        \<and> years (workout_unspecified_sds ts ! i) = years (ts ! i)
        \<and> target_values (workout_unspecified_sds ts ! i) = target_values (ts ! i)
        \<and> target.more (workout_unspecified_sds ts ! i) = target.more (ts ! i))"
  by (simp add: workout_unspecified_sds_map with_default_sd_def)

theorem workout_unspecified_sds_spec_witness:
  "0 < length example_targets \<and> sd (example_targets ! 0) = None
   \<and> sd (workout_unspecified_sds example_targets ! 0) = Some (Num (5625 / 10000000))
   \<and> 1 < length example_targets \<and> sd (example_targets ! 1) \<noteq> None
   \<and> workout_unspecified_sds example_targets ! 1 = example_targets ! 1"
proof -
  have l: "length example_targets = 2" by (simp add: example_targets_def)
  have a: "sd (example_targets ! 0) = None" by (simp add: example_targets_def)
  have b: "sd (example_targets ! 1) \<noteq> None" by (simp add: example_targets_def)
  have m: "np_times (0.5 / 4) (np_mean (target_values (example_targets ! 0))) = Num (5625 / 10000000)"
    by (simp add: example_targets_def np_mean_def)
  note th = workout_unspecified_sds_spec [of example_targets]
  from th l have t0: "sd (example_targets ! 0) = None \<longrightarrow>
           sd (workout_unspecified_sds example_targets ! 0)
             = Some (np_times (0.5 / 4) (np_mean (target_values (example_targets ! 0))))"
    by simp
  from th l have t1: "sd (example_targets ! 1) \<noteq> None \<longrightarrow>
      workout_unspecified_sds example_targets ! 1 = example_targets ! 1"
    by simp
  show ?thesis using l a b m t0 t1 by simp
qed

section \<open>The fitting driver on unsupported modes\<close>

lemma example_fitted_params:
  "fitted_params_of example_pymc3 example_priors []
     = Inr ([''contact_rate'', ''late_progression'', ''start_time''],
            [''contact_rate'', ''late_progression'', ''start_time''])"
  by (simp add: example_priors_def example_pymc3_def register_def)

lemma example_likelihood:
  "pm_DensityDist example_pymc3 ''likelihood'' theta
      [''contact_rate'', ''late_progression'', ''start_time'']
     = Inr [''contact_rate'', ''late_progression'', ''start_time'', ''likelihood'']"
  by (simp add: example_pymc3_def register_def)

lemma example_library:
  "pm_Model example_pymc3 = Inr []"
  "tt_as_tensor_variable example_pymc3 vs = Inr (concat vs)"
  "pm_find_MAP example_pymc3 c = Inr (length c)"
  "pm_Metropolis example_pymc3 c = Inr ''Metropolis''"
  "pm_DEMetropolis example_pymc3 c = Inr ''DEMetropolis''"
  "pm_sample example_pymc3 draws step tune n_chains progressbar parallelize c = Inr (nat draws)"
  by (simp_all add: example_pymc3_def)

text \<open>
  Claim C9. An unsupported mode is meant to be refused with a ValueError; the code builds
  the exception and never raises it. On the calibration object of the module's main
  block, with a library in which every call succeeds: for \<open>run_mode = 'lme'\<close> the driver
  returns without an error and has fitted nothing, the object is as before; for
  \<open>run_mode = 'mcmc'\<close> and \<open>mcmc_method = 'NUTS'\<close> the local \<open>mcmc_step\<close> is never assigned
  and the driver ends in UnboundLocalError, not in the ValueError it built and not in a
  normal return. The supported modes next to them do fit: \<open>'mle'\<close> stores the estimates
  and \<open>'mcmc'\<close> with \<open>'Metropolis'\<close> stores the trace.
\<close>

theorem run_fitting_algorithm_missing_raise:
  "run_fitting_algorithm example_pymc3 example_calibration ''lme'' ''Metropolis'' 100 10 1 True
     = (None, example_calibration)
   \<and> run_fitting_algorithm example_pymc3 example_calibration ''mcmc'' ''NUTS'' 100 10 1 True
     = (Some UnboundLocalError, example_calibration)
   \<and> run_fitting_algorithm example_pymc3 example_calibration ''mle'' ''Metropolis'' 100 10 1 True
     = (None, example_calibration\<lparr>mle_estimates := 4\<rparr>)
   \<and> run_fitting_algorithm example_pymc3 example_calibration ''mcmc'' ''Metropolis'' 100 10 1 True
     = (None, example_calibration\<lparr>mcmc_trace := Some 100\<rparr>)"
proof -
  have p: "priors example_calibration = example_priors"
    by (simp add: example_calibration_def)
  show ?thesis
    by (simp add: run_fitting_algorithm_def mcmc_step_of_def p example_fitted_params
        example_likelihood example_library)
qed

section \<open>The step function\<close>

lemma create_step_function_from_dict_greatest:
  assumes "distinct (map fst d)" and "(k, v) \<in> set d" and "k \<le> t"
    and "\<forall>k' \<in> fst ` set d. k' \<le> t \<longrightarrow> k' \<le> k"
  shows "create_step_function_from_dict d t = Some v"
proof -
  let ?r = "filter (\<lambda>b. b \<le> t) (map fst d)"
  have kin: "k \<in> set ?r" using assms(2,3) by force
  then have ne: "?r \<noteq> []" by (metis empty_iff empty_set)
  have "Max (set ?r) = k"
  proof (rule Max_eqI)
    show "finite (set ?r)" by simp
    show "y \<le> k" if "y \<in> set ?r" for y using that assms(4) by auto
    show "k \<in> set ?r" by (rule kin)
  qed
  moreover have "map_of d k = Some v" using assms(1,2) by simp
  ultimately show ?thesis using ne by (simp add: create_step_function_from_dict_def Let_def)
qed

text \<open>
  Claim C5. The function returned by the step-function builder from a mapping of
  breakpoints to values returns, at an input time, the value of the greatest breakpoint
  less than or equal to that time; built from \<open>{0: a, 5: b, 15: c}\<close> it returns \<open>a\<close> at 3,
  \<open>b\<close> at 5 and \<open>c\<close> at 20.
\<close>

theorem create_step_function_from_dict_spec:
  "(distinct (map fst d) \<and> (k, v) \<in> set d \<and> k \<le> t
      \<and> (\<forall>k' \<in> fst ` set d. k' \<le> t \<longrightarrow> k' \<le> k)
      \<longrightarrow> create_step_function_from_dict d t = Some v)
   \<and> create_step_function_from_dict [(0, a), (5, b), (15, c)] 3 = Some a
   \<and> create_step_function_from_dict [(0, a), (5, b), (15, c)] 5 = Some b
   \<and> create_step_function_from_dict [(0, a), (5, b), (15, c)] 20 = Some c"
proof -
  have "create_step_function_from_dict [(0, a), (5, b), (15, c)] 3 = Some a"
    and "create_step_function_from_dict [(0, a), (5, b), (15, c)] 5 = Some b"
    and "create_step_function_from_dict [(0, a), (5, b), (15, c)] 20 = Some c"
    by (simp_all add: create_step_function_from_dict_def)
  then show ?thesis
    using create_step_function_from_dict_greatest [of d k v t] by blast
qed

theorem create_step_function_from_dict_spec_witness:
  "map_of provide_age_specific_latency_parameters ''early_progression''
     = Some [(0, 6.6 / 10 ^ 3), (5, 2.7 / 10 ^ 3), (15, 2.7 / 10 ^ 4)]
   \<and> distinct (map fst [(0::real, 6.6 / 10 ^ 3 :: real), (5, 2.7 / 10 ^ 3), (15, 2.7 / 10 ^ 4)])
   \<and> (5, 2.7 / 10 ^ 3) \<in> set [(0::real, 6.6 / 10 ^ 3 :: real), (5, 2.7 / 10 ^ 3), (15, 2.7 / 10 ^ 4)]
   \<and> (5::real) \<le> 13
   \<and> \<not> (15::real) \<le> 13
   \<and> create_step_function_from_dict
         [(0, 6.6 / 10 ^ 3 :: real), (5, 2.7 / 10 ^ 3), (15, 2.7 / 10 ^ 4)] 13
       = Some (2.7 / 10 ^ 3)"
proof -
  let ?d = "[(0::real, 6.6 / 10 ^ 3 :: real), (5, 2.7 / 10 ^ 3), (15, 2.7 / 10 ^ 4)]"
  have m: "map_of provide_age_specific_latency_parameters ''early_progression'' = Some ?d"
    by (simp add: provide_age_specific_latency_parameters_def)
  have h1: "distinct (map fst ?d)" by simp
  have h2: "(5, 2.7 / 10 ^ 3) \<in> set ?d" by simp
  have h3: "(5::real) \<le> 13" by simp
  have h4: "\<forall>k' \<in> fst ` set ?d. k' \<le> 13 \<longrightarrow> k' \<le> 5" by simp
  note th = create_step_function_from_dict_spec [of ?d 5 "2.7 / 10 ^ 3" 13, THEN conjunct1]
  have r: "create_step_function_from_dict ?d 13 = Some (2.7 / 10 ^ 3)"
    by (rule th [THEN mp]) (intro conjI h1 h2 h3 h4)
  have h5: "\<not> (15::real) \<le> 13" by simp
  from m h1 h2 h3 h5 r show ?thesis by (intro conjI)
qed

section \<open>Recovering the parts of a compartment name\<close>

lemma split_on_no_sep: "c \<notin> set s \<Longrightarrow> split_on c s = [s]"
  by (induction s) auto

lemma split_on_sep: "c \<notin> set u \<Longrightarrow> split_on c (u @ c # v) = u # split_on c v"
  by (induction u) auto

lemma split_on_pair:
  "c \<notin> set u \<Longrightarrow> c \<notin> set v \<Longrightarrow> split_on c (u @ c # v) = [u, v]"
  by (simp add: split_on_sep split_on_no_sep)

lemma stratified_name_concat:
  "stratified_name base svs
     = base @ concat (map (\<lambda>(s, v). CHR ''X'' # s @ CHR ''_'' # v) svs)"
  unfolding stratified_name_def
  by (induction svs arbitrary: base) (auto simp: create_stratified_name_def)

lemma split_on_pieces:
  assumes "CHR ''X'' \<notin> set base"
    and "\<forall>(s, v) \<in> set svs. CHR ''X'' \<notin> set s \<and> CHR ''X'' \<notin> set v"
  shows "split_on CHR ''X'' (base @ concat (map (\<lambda>(s, v). CHR ''X'' # s @ CHR ''_'' # v) svs))
           = base # map (\<lambda>(s, v). s @ CHR ''_'' # v) svs"
  using assms
proof (induction svs arbitrary: base)
  case Nil
  then show ?case by (simp add: split_on_no_sep)
next
  case (Cons p svs)
  obtain s v where p: "p = (s, v)" by (cases p)
  have nx: "CHR ''X'' \<notin> set (s @ CHR ''_'' # v)"
    using Cons.prems(2) p by simp
  have rest: "\<forall>(s, v) \<in> set svs. CHR ''X'' \<notin> set s \<and> CHR ''X'' \<notin> set v"
    using Cons.prems(2) by simp
  have "split_on CHR ''X''
          (base @ concat (map (\<lambda>(s, v). CHR ''X'' # s @ CHR ''_'' # v) (p # svs)))
        = split_on CHR ''X''
          (base @ CHR ''X'' # ((s @ CHR ''_'' # v)
             @ concat (map (\<lambda>(s, v). CHR ''X'' # s @ CHR ''_'' # v) svs)))"
    by (simp add: p)
  also have "\<dots> = base # split_on CHR ''X'' ((s @ CHR ''_'' # v)
             @ concat (map (\<lambda>(s, v). CHR ''X'' # s @ CHR ''_'' # v) svs))"
    using Cons.prems(1) by (rule split_on_sep)
  also have "\<dots> = base # (s @ CHR ''_'' # v) # map (\<lambda>(s, v). s @ CHR ''_'' # v) svs"
    using Cons.IH [OF nx rest] by simp
  finally show ?case by (simp add: p)
qed

lemma split_contract_name:
  assumes "contract_name base vals ss name"
    and "\<forall>s \<in> set ss. CHR ''X'' \<notin> set s"
  shows "split_on CHR ''X'' name
           = base name # map (\<lambda>(s, v). s @ CHR ''_'' # v) (zip ss (vals name))"
proof -
  have n: "name = base name
      @ concat (map (\<lambda>(s, v). CHR ''X'' # s @ CHR ''_'' # v) (zip ss (vals name)))"
    using assms(1) by (simp add: contract_name_def stratified_name_concat [symmetric])
  have b: "CHR ''X'' \<notin> set (base name)" using assms(1) by (simp add: contract_name_def)
  have p: "\<forall>(s, v) \<in> set (zip ss (vals name)). CHR ''X'' \<notin> set s \<and> CHR ''X'' \<notin> set v"
    using assms by (auto simp: contract_name_def dest: set_zip_leftD set_zip_rightD)
  show ?thesis
    by (subst n) (rule split_on_pieces [OF b p])
qed

lemma apply_rows_ok:
  "\<forall>r \<in> set df. f r = Inr (g r) \<Longrightarrow> apply_rows f df = Inr (map g df)"
  by (induction df) auto

lemma zip_map_same: "map (\<lambda>(r, v). h r v) (zip df (map g df)) = map (\<lambda>r. h r (g r)) df"
  by (induction df) auto

lemma assign_column_ok:
  assumes "\<forall>r \<in> set df. f r = Inr (g r)"
  shows "assign_column c f df = Inr (map (\<lambda>r. r(c \<mapsto> Text (g r))) df)"
  unfolding assign_column_def apply_rows_ok [OF assms]
  by (simp add: zip_map_same)


lemma parsed_variable:
  assumes "strata_ok ss" and "n \<le> length ss"
  shows "parsed base vals ss n r ''variable'' = r ''variable''"
  using assms(2)
proof (induction n)
  case 0
  then show ?case by simp
next
  case (Suc k)
  then have "ss ! k \<in> set ss" by simp
  then have "ss ! k \<noteq> ''variable''" using assms(1) by (auto simp: strata_ok_def)
  then show ?case using Suc by simp
qed

lemma parsed_compartment:
  assumes "strata_ok ss" and "n \<le> length ss"
  shows "parsed base vals ss n r ''compartment'' = Some (Text (base (name_of r)))"
  using assms(2)
proof (induction n)
  case 0
  then show ?case by simp
next
  case (Suc k)
  then have "ss ! k \<in> set ss" by simp
  then have "ss ! k \<noteq> ''compartment''" using assms(1) by (auto simp: strata_ok_def)
  then show ?case using Suc by simp
qed

lemma parsed_stratum:
  assumes "strata_ok ss" and "n \<le> length ss" and "k < n"
  shows "parsed base vals ss n r (ss ! k) = Some (Text (vals (name_of r) ! k))"
  using assms(2,3)
proof (induction n)
  case 0
  then show ?case by simp
next
  case (Suc n)
  show ?case
  proof (cases "k = n")
    case True
    then show ?thesis by simp
  next
    case False
    then have kn: "k < n" using Suc.prems by simp
    have "distinct ss" using assms(1) by (simp add: strata_ok_def)
    then have "ss ! n \<noteq> ss ! k"
      using kn Suc.prems by (simp add: nth_eq_iff_index_eq)
    then show ?thesis using Suc kn by simp
  qed
qed

text \<open>The first round of the loop, and a later round, on rows melted from contract names.\<close>

lemma unpivot_step_0:
  assumes ss: "strata_ok ss"
    and rows: "\<forall>r \<in> set df. r ''variable'' = Some (Text (name_of r))
                 \<and> contract_name base vals ss (name_of r)"
  shows "unpivot_step ss 0 df = Inr (map (parsed base vals ss 0) df)"
proof -
  have x: "\<forall>s \<in> set ss. CHR ''X'' \<notin> set s" using ss by (simp add: strata_ok_def)
  have "\<forall>r \<in> set df. split_variable 0 r = Inr (base (name_of r))"
  proof
    fix r assume r: "r \<in> set df"
    then have v: "r ''variable'' = Some (Text (name_of r))"
      and c: "contract_name base vals ss (name_of r)" using rows by auto
    show "split_variable 0 r = Inr (base (name_of r))"
      by (simp add: split_variable_def v split_contract_name [OF c x] py_index_def)
  qed
  then have "assign_column ''compartment'' (split_variable 0) df
      = Inr (map (\<lambda>r. r(''compartment'' \<mapsto> Text (base (name_of r)))) df)"
    by (rule assign_column_ok)
  then show ?thesis by (simp add: unpivot_step_def)
qed

lemma name_of_parsed:
  assumes "strata_ok ss" and "n \<le> length ss"
  shows "name_of (parsed base vals ss n r) = name_of r"
  by (simp add: name_of_def parsed_variable [OF assms])

lemma unpivot_step_Suc:
  assumes ss: "strata_ok ss" and k: "k < length ss"
    and rows: "\<forall>r \<in> set df. r ''variable'' = Some (Text (name_of r))
                 \<and> contract_name base vals ss (name_of r)"
  shows "unpivot_step ss (Suc k) (map (parsed base vals ss k) df)
           = Inr (map (parsed base vals ss (Suc k)) df)"
proof -
  let ?P = "parsed base vals ss k"
  let ?piece = "\<lambda>r. ss ! k @ CHR ''_'' # vals (name_of r) ! k"
  have x: "\<forall>s \<in> set ss. CHR ''X'' \<notin> set s" using ss by (simp add: strata_ok_def)
  have kk: "k \<le> length ss" using k by simp
  have sk: "CHR ''_'' \<notin> set (ss ! k)" using ss k by (simp add: strata_ok_def)
  have first: "\<forall>r' \<in> set (map ?P df). split_variable (Suc k) r' = Inr (?piece r')"
  proof
    fix r' assume "r' \<in> set (map ?P df)"
    then obtain r where r: "r \<in> set df" and r': "r' = ?P r" by auto
    have v: "r ''variable'' = Some (Text (name_of r))"
      and c: "contract_name base vals ss (name_of r)" using rows r by auto
    have len: "length (vals (name_of r)) = length ss" using c by (simp add: contract_name_def)
    have v': "r' ''variable'' = Some (Text (name_of r))"
      by (simp add: r' parsed_variable [OF ss kk] v)
    have n': "name_of r' = name_of r" by (simp add: r' name_of_parsed [OF ss kk])
    show "split_variable (Suc k) r' = Inr (?piece r')"
      using k len
      by (simp add: split_variable_def v' n' split_contract_name [OF c x] py_index_def)
  qed
  have a1: "assign_column (ss ! k) (split_variable (Suc k)) (map ?P df)
      = Inr (map (\<lambda>r'. r'(ss ! k \<mapsto> Text (?piece r'))) (map ?P df))"
    using first by (rule assign_column_ok)
  let ?df1 = "map (\<lambda>r'. r'(ss ! k \<mapsto> Text (?piece r'))) (map ?P df)"
  have second: "\<forall>r1 \<in> set ?df1. split_stratum (ss ! k) r1 = Inr (vals (name_of r1) ! k)"
  proof
    fix r1 assume "r1 \<in> set ?df1"
    then obtain r where r: "r \<in> set df"
      and r1: "r1 = (?P r)(ss ! k \<mapsto> Text (?piece (?P r)))" by auto
    have v: "r ''variable'' = Some (Text (name_of r))"
      and c: "contract_name base vals ss (name_of r)" using rows r by auto
    have len: "length (vals (name_of r)) = length ss" using c by (simp add: contract_name_def)
    have nv: "ss ! k \<noteq> ''variable''" using ss k by (simp add: strata_ok_def)
    have "((?P r)(ss ! k \<mapsto> Text t)) ''variable'' = r ''variable''" for t
      using nv by (simp add: parsed_variable [OF ss kk])
    then have n1: "name_of ((?P r)(ss ! k \<mapsto> Text t)) = name_of r" for t
      by (simp add: name_of_def)
    have n': "name_of (?P r) = name_of r" by (simp add: name_of_parsed [OF ss kk])
    have vk: "vals (name_of r) ! k \<in> set (vals (name_of r))" using k len by simp
    then have vu: "CHR ''_'' \<notin> set (vals (name_of r) ! k)"
      using c by (simp add: contract_name_def)
    show "split_stratum (ss ! k) r1 = Inr (vals (name_of r1) ! k)"
      by (simp add: split_stratum_def r1 n1 n' split_on_pair [OF sk vu] py_index_def)
  qed
  have a2: "assign_column (ss ! k) (split_stratum (ss ! k)) ?df1
      = Inr (map (\<lambda>r1. r1(ss ! k \<mapsto> Text (vals (name_of r1) ! k))) ?df1)"
    using second by (rule assign_column_ok)
  have fin: "map (\<lambda>r1. r1(ss ! k \<mapsto> Text (vals (name_of r1) ! k))) ?df1
      = map (parsed base vals ss (Suc k)) df"
  proof -
    have nv: "ss ! k \<noteq> ''variable''" using ss k by (simp add: strata_ok_def)
    have nn: "name_of ((?P r)(ss ! k \<mapsto> Text t)) = name_of r" for r t
    proof -
      have "((?P r)(ss ! k \<mapsto> Text t)) ''variable'' = r ''variable''"
        using nv by (simp add: parsed_variable [OF ss kk])
      then show ?thesis by (simp add: name_of_def)
    qed
    have "((?P r)(ss ! k \<mapsto> Text (?piece (?P r))))
             (ss ! k \<mapsto> Text (vals (name_of ((?P r)(ss ! k \<mapsto> Text (?piece (?P r))))) ! k))
          = parsed base vals ss (Suc k) r" for r
      by (simp add: nn)
    then show ?thesis by (simp add: comp_def)
  qed
  show ?thesis
    unfolding unpivot_step_def Let_def using a1 a2 fin by simp
qed


lemma unpivot_loop_rest:
  assumes ss: "strata_ok ss" and k: "k \<le> length ss"
    and rows: "\<forall>r \<in> set df. r ''variable'' = Some (Text (name_of r))
                 \<and> contract_name base vals ss (name_of r)"
  shows "unpivot_loop ss [Suc k..<Suc (length ss)] (map (parsed base vals ss k) df)
           = Inr (map (parsed base vals ss (length ss)) df)"
  using k
proof (induction "length ss - k" arbitrary: k)
  case 0
  then have "k = length ss" by simp
  then show ?case by simp
next
  case (Suc d)
  then have k: "k < length ss" by simp
  have up: "[Suc k..<Suc (length ss)] = Suc k # [Suc (Suc k)..<Suc (length ss)]"
    using k by (simp add: upt_conv_Cons)
  have d: "d = length ss - Suc k" using Suc.hyps(2) by simp
  have le: "Suc k \<le> length ss" using k by simp
  show ?case
    unfolding up
    by (simp add: unpivot_step_Suc [OF ss k rows] Suc.hyps(1) [OF d le] del: upt_Suc)
qed

lemma unpivot_loop_ok:
  assumes ss: "strata_ok ss"
    and rows: "\<forall>r \<in> set df. r ''variable'' = Some (Text (name_of r))
                 \<and> contract_name base vals ss (name_of r)"
  shows "unpivot_loop ss [0..<Suc (length ss)] df
           = Inr (map (parsed base vals ss (length ss)) df)"
proof -
  have up: "[0..<Suc (length ss)] = 0 # [Suc 0..<Suc (length ss)]"
    by (rule upt_conv_Cons) simp
  show ?thesis
    unfolding up
    by (simp add: unpivot_step_0 [OF ss rows] unpivot_loop_rest [OF ss _ rows] del: upt_Suc)
qed

lemma melt_rows:
  assumes "r \<in> set (melt m)"
  shows "\<exists>name \<in> set (compartment_names m). r ''variable'' = Some (Text name)"
  using assms by (auto simp: melt_def)

text \<open>
  Claim C1, as stated, fails. A stratum value with an underscore is cut at the
  underscore: for the name built from \<open>infectious\<close>, \<open>smear\<close> and \<open>smear_pos\<close> the column
  \<open>smear\<close> holds \<open>smear\<close>. And when a name carries fewer stratifications than the model
  lists, the positional read runs out of range and the whole call raises IndexError.
\<close>

theorem unpivot_outputs_counterexample:
  "unpivot_outputs underscore_model
     = Inr [[''times'' \<mapsto> Number 0, ''value'' \<mapsto> Number 1,
             ''compartment'' \<mapsto> Text ''infectious'', ''smear'' \<mapsto> Text ''smear'']]
   \<and> unpivot_outputs partly_stratified_model = Inl IndexError"
proof -
  have n: "stratified_name ''infectious'' [(''smear'', ''smear_pos'')] = ''infectiousXsmear_smear_pos''"
    "stratified_name ''susceptible'' [] = ''susceptible''"
    "stratified_name ''infectious'' [(''smear'', ''smearpos'')] = ''infectiousXsmear_smearpos''"
    by (simp_all add: stratified_name_def create_stratified_name_def)
  have a: "unpivot_outputs underscore_model
     = Inr [[''times'' \<mapsto> Number 0, ''value'' \<mapsto> Number 1,
             ''compartment'' \<mapsto> Text ''infectious'', ''smear'' \<mapsto> Text ''smear'']]"
    by (simp add: unpivot_outputs_def underscore_model_def n melt_def unpivot_step_def
        assign_column_def split_variable_def split_stratum_def py_index_def fun_eq_iff)
  have b: "unpivot_outputs partly_stratified_model = Inl IndexError"
    by (simp add: unpivot_outputs_def partly_stratified_model_def n melt_def unpivot_step_def
        assign_column_def split_variable_def split_stratum_def py_index_def Let_def)
  show ?thesis using a b by simp
qed

text \<open>
  Claim C1, amended. Let the stratification names of the model be distinct, free of \<open>X\<close>
  and of underscores, and different from \<open>compartment\<close> and \<open>variable\<close>; let every
  compartment name be built per the naming contract from a base label without \<open>X\<close>
  (underscores allowed) and one stratum value, without \<open>X\<close> and without underscore, for
  each stratification of the model in order; let the output matrix fit the times and
  the compartments. Then \<open>unpivot_outputs\<close> returns a frame with one row per melted row,
  and in each row the column \<open>compartment\<close> is the base label of the row's compartment
  name and the column named after each stratification is that stratification's stratum
  value.
\<close>

theorem unpivot_outputs_recovers:
  assumes "strata_ok (strata m)"
    and "\<forall>name \<in> set (compartment_names m). contract_name base vals (strata m) name"
    and "length (outputs m) = length (model_times m)"
    and "\<forall>xs \<in> set (outputs m). length xs = length (compartment_names m)"
  shows "\<exists>df. unpivot_outputs m = Inr df \<and> length df = length (melt m)
     \<and> (\<forall>i < length df.
          \<exists>name \<in> set (compartment_names m).
             (melt m ! i) ''variable'' = Some (Text name)
             \<and> (df ! i) ''compartment'' = Some (Text (base name))
             \<and> (\<forall>k < length (strata m).
                   (df ! i) (strata m ! k) = Some (Text (vals name ! k))))"
proof -
  let ?ss = "strata m"
  let ?n = "length ?ss"
  let ?df = "map (\<lambda>r. r(''variable'' := None)) (map (parsed base vals ?ss ?n) (melt m))"
  have rows: "\<forall>r \<in> set (melt m). r ''variable'' = Some (Text (name_of r))
                 \<and> contract_name base vals ?ss (name_of r)"
  proof
    fix r assume "r \<in> set (melt m)"
    then obtain name where n: "name \<in> set (compartment_names m)"
      and v: "r ''variable'' = Some (Text name)" using melt_rows by blast
    then have "name_of r = name" by (simp add: name_of_def)
    then show "r ''variable'' = Some (Text (name_of r))
                 \<and> contract_name base vals ?ss (name_of r)"
      using n v assms(2) by simp
  qed
  have run: "unpivot_outputs m = Inr ?df"
    using assms(3,4)
    by (simp add: unpivot_outputs_def unpivot_loop_ok [OF assms(1) rows] del: upt_Suc)
  have cols: "\<exists>name \<in> set (compartment_names m).
             (melt m ! i) ''variable'' = Some (Text name)
             \<and> (?df ! i) ''compartment'' = Some (Text (base name))
             \<and> (\<forall>k < ?n. (?df ! i) (?ss ! k) = Some (Text (vals name ! k)))"
    if i: "i < length ?df" for i
  proof -
    let ?r = "melt m ! i"
    have im: "i < length (melt m)" using i by simp
    then have rin: "?r \<in> set (melt m)" by simp
    then obtain name where n: "name \<in> set (compartment_names m)"
      and v: "?r ''variable'' = Some (Text name)" using melt_rows by blast
    have nm: "name_of ?r = name" using v by (simp add: name_of_def)
    have row: "?df ! i = (parsed base vals ?ss ?n ?r)(''variable'' := None)"
      using im by simp
    have c: "(?df ! i) ''compartment'' = Some (Text (base name))"
      unfolding row using parsed_compartment [OF assms(1) le_refl, of base vals ?r]
      by (simp add: nm)
    have s: "(?df ! i) (?ss ! k) = Some (Text (vals name ! k))" if k: "k < ?n" for k
    proof -
      have "?ss ! k \<in> set ?ss" using k by simp
      then have "?ss ! k \<noteq> ''variable''" using assms(1) by (auto simp: strata_ok_def)
      then show ?thesis
        unfolding row using parsed_stratum [OF assms(1) le_refl k, of base vals ?r]
        by (simp add: nm)
    qed
    show ?thesis using n v c s by blast
  qed
  show ?thesis using run cols by (intro exI [of _ ?df]) simp
qed



theorem unpivot_outputs_recovers_witness:
  "strata_ok (strata example_model)
   \<and> contract_name example_base example_vals (strata example_model) ''early_latentXage_5Xstrain_ds''
   \<and> contract_name example_base example_vals (strata example_model) ''infectiousXage_15Xstrain_mdr''
   \<and> length (outputs example_model) = length (model_times example_model)
   \<and> (\<exists>df. unpivot_outputs example_model = Inr df \<and> length df = 4
         \<and> (df ! 0) ''compartment'' = Some (Text ''early_latent'')
         \<and> (df ! 0) ''age'' = Some (Text ''5'')
         \<and> (df ! 0) ''strain'' = Some (Text ''ds''))"
proof -
  have s: "strata_ok (strata example_model)"
    by (simp add: strata_ok_def example_model_def)
  have c1: "contract_name example_base example_vals (strata example_model)
              ''early_latentXage_5Xstrain_ds''"
    by (simp add: contract_name_def example_model_def example_base_def example_vals_def
        stratified_name_def create_stratified_name_def)
  have c2: "contract_name example_base example_vals (strata example_model)
              ''infectiousXage_15Xstrain_mdr''"
    by (simp add: contract_name_def example_model_def example_base_def example_vals_def
        stratified_name_def create_stratified_name_def)
  have c: "\<forall>name \<in> set (compartment_names example_model).
             contract_name example_base example_vals (strata example_model) name"
    using c1 c2 by (simp add: example_model_def)
  have l: "length (outputs example_model) = length (model_times example_model)"
    by (simp add: example_model_def)
  have w: "\<forall>xs \<in> set (outputs example_model). length xs = length (compartment_names example_model)"
    by (simp add: example_model_def)
  have m: "length (melt example_model) = 4"
    "(melt example_model ! 0) ''variable'' = Some (Text ''early_latentXage_5Xstrain_ds'')"
    by (simp_all add: melt_def example_model_def upt_rec)
  from unpivot_outputs_recovers [OF s c l w]
  obtain df where df: "unpivot_outputs example_model = Inr df"
    and len: "length df = length (melt example_model)"
    and rows: "\<forall>i < length df.
          \<exists>name \<in> set (compartment_names example_model).
             (melt example_model ! i) ''variable'' = Some (Text name)
             \<and> (df ! i) ''compartment'' = Some (Text (example_base name))
             \<and> (\<forall>k < length (strata example_model).
                   (df ! i) (strata example_model ! k) = Some (Text (example_vals name ! k)))"
    by blast
  have "0 < length df" using len m by simp
  with rows obtain name where
    v: "(melt example_model ! 0) ''variable'' = Some (Text name)"
    and b: "(df ! 0) ''compartment'' = Some (Text (example_base name))"
    and k: "\<forall>k < length (strata example_model).
                   (df ! 0) (strata example_model ! k) = Some (Text (example_vals name ! k))"
    by blast
  have name: "name = ''early_latentXage_5Xstrain_ds''" using v m(2) by simp
  have b': "(df ! 0) ''compartment'' = Some (Text ''early_latent'')"
    using b by (simp add: name example_base_def)
  have k0: "(df ! 0) ''age'' = Some (Text ''5'')"
    using k [rule_format, of 0] by (simp add: name example_vals_def example_model_def)
  have k1: "(df ! 0) ''strain'' = Some (Text ''ds'')"
    using k [rule_format, of 1] by (simp add: name example_vals_def example_model_def)
  have "\<exists>df. unpivot_outputs example_model = Inr df \<and> length df = 4
         \<and> (df ! 0) ''compartment'' = Some (Text ''early_latent'')
         \<and> (df ! 0) ''age'' = Some (Text ''5'')
         \<and> (df ! 0) ''strain'' = Some (Text ''ds'')"
    using df len m(1) b' k0 k1 by (intro exI [of _ df]) simp
  with s c1 c2 l show ?thesis by (intro conjI)
qed

section \<open>The base model is not touched by a run\<close>

lemma kept_confined:
  assumes "kept n model h hk" and "confined model hk hk'"
  shows "kept n model h hk'"
proof -
  have n: "n \<le> length hk" and same: "\<forall>a < n. hk ! a = h ! a"
    and own: "owned hk model \<subseteq> {b. n \<le> b}"
    using assms(1) by (simp_all add: kept_def)
  have len: "length hk \<le> length hk'"
    and fr: "\<forall>b < length hk. b \<notin> owned hk model \<longrightarrow> hk' ! b = hk ! b"
    and own': "owned hk' model \<subseteq> owned hk model \<union> {b. length hk \<le> b}"
    using assms(2) by (simp_all add: confined_def)
  have "hk' ! a = h ! a" if a: "a < n" for a
  proof -
    have "a \<notin> owned hk model" using own a by auto
    moreover have "a < length hk" using a n by simp
    ultimately have "hk' ! a = hk ! a" using fr by simp
    then show ?thesis using same a by simp
  qed
  moreover have "owned hk' model \<subseteq> {b. n \<le> b}"
    using own own' n by auto
  ultimately show ?thesis using n len by (simp add: kept_def)
qed

lemma deepcopy_Inl: "deepcopy h a = (Inl e, h1) \<Longrightarrow> h1 = h"
  by (auto simp: deepcopy_def Let_def split: option.splits pyobj.splits)

lemma deepcopy_Inr:
  assumes "deepcopy h a = (Inr model, h1)"
  shows "\<exists>m c f p t. lookup h a = Some (Model m)
           \<and> lookup h (names_at m) = Some c \<and> lookup h (flows_at m) = Some f
           \<and> lookup h (parameters_at m) = Some p \<and> lookup h (time_variants_at m) = Some t
           \<and> model = length h + 4
           \<and> h1 = h @ [c, f, p, t,
                  Model (m\<lparr>names_at := length h, flows_at := length h + 1,
                           parameters_at := length h + 2, time_variants_at := length h + 3\<rparr>)]"
  using assms by (auto simp: deepcopy_def Let_def split: option.splits pyobj.splits)

lemma deepcopy_kept:
  assumes "deepcopy h a = (Inr model, h1)"
  shows "kept (length h) model h h1 \<and> length h \<le> model"
proof -
  from deepcopy_Inr [OF assms] obtain m c f p t where
    model: "model = length h + 4"
    and h1: "h1 = h @ [c, f, p, t,
                  Model (m\<lparr>names_at := length h, flows_at := length h + 1,
                           parameters_at := length h + 2, time_variants_at := length h + 3\<rparr>)]"
    by blast
  have "owned h1 model \<subseteq> {b. length h \<le> b}"
    by (simp add: owned_def lookup_def h1 model nth_append)
  moreover have "\<forall>a < length h. h1 ! a = h ! a" by (simp add: h1 nth_append)
  ultimately show ?thesis by (simp add: kept_def h1 model)
qed

lemma set_parameter_kept:
  assumes "kept n model h hk" and "set_parameter model name v hk = (r, hk')"
  shows "kept n model h hk'"
proof (cases "\<exists>m d. lookup hk model = Some (Model m) \<and> lookup hk (parameters_at m) = Some (ParamDict d)")
  case False
  then have "hk' = hk"
    using assms(2) by (auto simp: set_parameter_def split: option.splits pyobj.splits)
  then show ?thesis using assms(1) by simp
next
  case True
  then obtain m d where m: "lookup hk model = Some (Model m)"
    and d: "lookup hk (parameters_at m) = Some (ParamDict d)" by blast
  let ?p = "parameters_at m"
  have hk': "hk' = hk[?p := ParamDict (d(name \<mapsto> v))]"
    using assms(2) m d by (simp add: set_parameter_def)
  have n: "n \<le> length hk" and same: "\<forall>a < n. hk ! a = h ! a"
    and own: "owned hk model \<subseteq> {b. n \<le> b}"
    using assms(1) by (simp_all add: kept_def)
  have "?p \<in> owned hk model" by (simp add: owned_def m)
  then have pn: "n \<le> ?p" using own by auto
  have "\<forall>a < n. hk' ! a = h ! a" using same pn by (simp add: hk')
  moreover have "owned hk' model \<subseteq> owned hk model"
  proof (cases "?p = model")
    case True
    then show ?thesis using m by (auto simp: owned_def lookup_def hk' split: if_splits)
  next
    case False
    then have "lookup hk' model = lookup hk model" by (simp add: lookup_def hk')
    then show ?thesis by (simp add: owned_def)
  qed
  ultimately show ?thesis using n own by (auto simp: kept_def hk')
qed

lemma update_parameter_values_kept:
  assumes "kept n model h hk" and "update_parameter_values ps vs model hk = (r, hk')"
  shows "kept n model h hk'"
  using assms
proof (induction ps vs model hk rule: update_parameter_values.induct)
  case (1 ps model hk)
  then show ?case by simp
next
  case (2 v vs model hk)
  then show ?case by simp
next
  case (3 p ps v vs model hk)
  show ?case
  proof (cases "param_name p \<noteq> ''start_time''")
    case False
    then show ?thesis using 3 by simp
  next
    case True
    obtain e h1 where sp: "set_parameter model (param_name p) v hk = (e, h1)"
      by (cases "set_parameter model (param_name p) v hk")
    have k1: "kept n model h h1" using set_parameter_kept [OF "3.prems"(1) sp] .
    show ?thesis
    proof (cases e)
      case None
      then have "update_parameter_values ps vs model h1 = (r, hk')"
        using "3.prems"(2) True sp by simp
      then show ?thesis using "3.IH"(1) [OF True sp [symmetric, unfolded None] _ k1] None sp
        by simp
    next
      case (Some err)
      then have "hk' = h1" using "3.prems"(2) True sp by simp
      then show ?thesis using k1 by simp
    qed
  qed
qed


lemma update_post_processing_kept:
  assumes api: "summer_confined api" and rm: "running_model self = Some model"
    and k: "kept n model h hk"
    and run: "update_post_processing api self hk = (r, self', hk')"
  shows "kept n model h hk' \<and> base_model self' = base_model self
         \<and> running_model self' = running_model self"
proof (cases "post_processing self")
  case None
  let ?ro = "map output_key (targeted_outputs self)"
  let ?rt = "fold (\<lambda>output m. m(output_key output \<mapsto> years output))
                   (targeted_outputs self) Map.empty"
  obtain res h1 where pp: "PostProcessing api hk model ?ro ?rt = (res, h1)"
    by (cases "PostProcessing api hk model ?ro ?rt")
  have "confined model hk (snd (PostProcessing api hk model ?ro ?rt))"
    using api by (simp add: summer_confined_def)
  then have c: "confined model hk h1" by (simp add: pp)
  have k1: "kept n model h h1" using kept_confined [OF k c] .
  have "hk' = h1 \<and> base_model self' = base_model self
         \<and> running_model self' = running_model self"
    using run None rm pp
    by (cases res) (auto simp: update_post_processing_def Let_def)
  then show ?thesis using k1 by simp
next
  case (Some pp)
  let ?pp1 = "pp\<lparr>pp_model := model, generated_outputs := []\<rparr>"
  obtain e pp' h1 where g: "generate_outputs api hk ?pp1 = (e, pp', h1)"
    by (cases "generate_outputs api hk ?pp1")
  have "confined (pp_model ?pp1) hk (snd (snd (generate_outputs api hk ?pp1)))"
    using api unfolding summer_confined_def by blast
  then have c: "confined model hk h1" by (simp add: g)
  have k1: "kept n model h h1" using kept_confined [OF k c] .
  have "hk' = h1 \<and> base_model self' = base_model self
         \<and> running_model self' = running_model self"
    using run Some rm g by (auto simp: update_post_processing_def)
  then show ?thesis using k1 by simp
qed

lemma read_model_kept:
  assumes "length h \<le> length h'" and "\<forall>a < length h. h' ! a = h ! a"
    and "read_model h b = Some x"
  shows "read_model h' b = Some x"
proof -
  have l: "lookup h a = Some y \<Longrightarrow> lookup h' a = Some y" for a y
    using assms(1,2) by (auto simp: lookup_def split: if_splits)
  obtain m c f p t where m: "lookup h b = Some (Model m)"
    and c: "lookup h (names_at m) = Some c" and f: "lookup h (flows_at m) = Some f"
    and p: "lookup h (parameters_at m) = Some p"
    and t: "lookup h (time_variants_at m) = Some t" and x: "x = (c, f, p, t)"
    using assms(3) by (auto simp: read_model_def split: option.splits pyobj.splits)
  show ?thesis
    by (simp add: read_model_def l [OF m] l [OF c] l [OF f] l [OF p] l [OF t] x)
qed

lemma run_model_with_params_kept:
  assumes st: "''start_time'' \<notin> set (param_list self)"
    and api: "summer_confined api"
    and run: "run_model_with_params api self params h = (r, self', h')"
  shows "length h \<le> length h' \<and> (\<forall>a < length h. h' ! a = h ! a)
         \<and> base_model self' = base_model self"
proof -
  have reset: "reset_running_model api self params h = deepcopy h (base_model self)"
    using st by (simp add: reset_running_model_def)
  obtain res h1 where dc: "deepcopy h (base_model self) = (res, h1)"
    by (cases "deepcopy h (base_model self)")
  show ?thesis
  proof (cases res)
    case (Inl e)
    then have "h1 = h" using dc deepcopy_Inl by blast
    then show ?thesis
      using run by (simp add: run_model_with_params_def reset dc Inl)
  next
    case (Inr model)
    let ?self1 = "self\<lparr>running_model := Some model\<rparr>"
    have k1: "kept (length h) model h h1"
      using deepcopy_kept dc Inr by blast
    obtain e2 h2 where up: "update_parameter_values (priors self) params model h1 = (e2, h2)"
      by (cases "update_parameter_values (priors self) params model h1")
    have k2: "kept (length h) model h h2"
      using update_parameter_values_kept [OF k1 up] .
    obtain e3 h3 where rn: "run_model api h2 model = (e3, h3)"
      by (cases "run_model api h2 model")
    have "confined model h2 (snd (run_model api h2 model))"
      using api by (simp add: summer_confined_def)
    then have k3: "kept (length h) model h h3"
      using kept_confined [OF k2] by (simp add: rn)
    have fin: "kept (length h) model h h' \<and> base_model self' = base_model self"
    proof (cases e2)
      case (Some err)
      then show ?thesis
        using run k2 by (auto simp: run_model_with_params_def reset dc Inr up)
    next
      case None
      note e2 = None
      show ?thesis
      proof (cases e3)
        case (Some err)
        then show ?thesis
          using run k3 by (auto simp: run_model_with_params_def reset dc Inr up e2 rn)
      next
        case None
        then have "update_post_processing api ?self1 h3 = (r, self', h')"
          using run by (simp add: run_model_with_params_def reset dc Inr up e2 rn)
        from update_post_processing_kept [OF api _ k3 this]
        show ?thesis by simp
      qed
    qed
    then show ?thesis by (simp add: kept_def)
  qed
qed

lemma update_parameter_values_copy:
  assumes "parameters_at m = length h + 2"
  shows "update_parameter_values ps vs (length h + 4) (h @ [c, f, ParamDict d, t, Model m])
           = (e, h2)
         \<Longrightarrow> h2 = h @ [c, f, ParamDict (overrides ps vs d), t, Model m]"
proof (induction ps vs d rule: overrides.induct)
  case (1 ps d)
  then show ?case by simp
next
  case (2 v vs d)
  then show ?case by simp
next
  case (3 p ps v vs d)
  have sp: "set_parameter (length h + 4) name x (h @ [c, f, ParamDict d, t, Model m])
      = (None, h @ [c, f, ParamDict (d(name \<mapsto> x)), t, Model m])" for name x
    using assms by (simp add: set_parameter_def lookup_def nth_append list_update_append)
  show ?case
  proof (cases "param_name p \<noteq> ''start_time''")
    case True
    have eq: "(if param_name p \<noteq> ''start_time'' then d(param_name p \<mapsto> v) else d)
        = d(param_name p \<mapsto> v)"
      using True by simp
    have run: "update_parameter_values ps vs (length h + 4)
        (h @ [c, f, ParamDict (d(param_name p \<mapsto> v)), t, Model m]) = (e, h2)"
      using "3.prems" True by (simp add: sp)
    show ?thesis
      using "3.IH" [unfolded eq, OF run] by (simp only: overrides.simps eq)
  next
    case False
    have eq: "(if param_name p \<noteq> ''start_time'' then d(param_name p \<mapsto> v) else d) = d"
      using False by simp
    have run: "update_parameter_values ps vs (length h + 4)
        (h @ [c, f, ParamDict d, t, Model m]) = (e, h2)"
      using "3.prems" False by simp
    show ?thesis
      using "3.IH" [unfolded eq, OF run] by (simp only: overrides.simps eq)
  qed
qed

lemma copy_then_update:
  assumes dc: "deepcopy h b = (Inr model, h1)"
    and up: "update_parameter_values ps vs model h1 = (e, h2)"
    and rd: "read_model h b = Some (c, f, ParamDict d, t)"
  shows "read_model h2 model = Some (c, f, ParamDict (overrides ps vs d), t)"
proof -
  from deepcopy_Inr [OF dc] obtain m c' f' p' t' where
    m: "lookup h b = Some (Model m)"
    and c: "lookup h (names_at m) = Some c'" and f: "lookup h (flows_at m) = Some f'"
    and p: "lookup h (parameters_at m) = Some p'"
    and t: "lookup h (time_variants_at m) = Some t'"
    and model: "model = length h + 4"
    and h1: "h1 = h @ [c', f', p', t',
                  Model (m\<lparr>names_at := length h, flows_at := length h + 1,
                           parameters_at := length h + 2, time_variants_at := length h + 3\<rparr>)]"
    by blast
  have eq: "c' = c" "f' = f" "p' = ParamDict d" "t' = t"
    using rd m c f p t by (simp_all add: read_model_def)
  let ?m = "m\<lparr>names_at := length h, flows_at := length h + 1,
                           parameters_at := length h + 2, time_variants_at := length h + 3\<rparr>"
  have pm: "parameters_at ?m = length h + 2" by simp
  have "h2 = h @ [c, f, ParamDict (overrides ps vs d), t, Model ?m]"
    using update_parameter_values_copy [OF pm] up unfolding h1 model eq by blast
  then show ?thesis
    by (simp add: read_model_def lookup_def model nth_append)
qed



lemma example_summer_confined: "summer_confined example_summer"
proof -
  have c0: "confined a h h" for a h by (simp add: confined_def)
  have c1: "confined a h (snd (run_model example_summer h a))" for a h
  proof (cases "\<exists>m. lookup h a = Some (Model m)")
    case False
    then have "snd (run_model example_summer h a) = h"
      by (auto simp: example_summer_def split: option.splits pyobj.splits)
    then show ?thesis using c0 by simp
  next
    case True
    then obtain m where m: "lookup h a = Some (Model m)" by blast
    then have a: "a < length h" by (simp add: lookup_def split: if_splits)
    have h': "snd (run_model example_summer h a) = h[a := Model (m\<lparr>model_outputs := Some [[1]]\<rparr>)]"
      by (simp add: example_summer_def m)
    let ?h' = "h[a := Model (m\<lparr>model_outputs := Some [[1]]\<rparr>)]"
    have own: "owned ?h' a = owned h a"
      using a m by (simp add: owned_def lookup_def)
    have ain: "a \<in> owned h a" by (simp add: owned_def m)
    have same: "?h' ! b = h ! b" if "b \<notin> owned h a" for b
    proof -
      have "b \<noteq> a" using that ain by blast
      then show ?thesis by simp
    qed
    show ?thesis
      unfolding h' confined_def using own same by simp
  qed
  show ?thesis
    unfolding summer_confined_def using c1
    by (simp add: example_summer_def c0)
qed



section \<open>Replacing deaths keeps the total population\<close>

lemma sum_list_update_add:
  "i < length xs \<Longrightarrow> sum_list (xs[i := xs ! i + d]) = sum_list xs + (d::real)"
proof (induction xs arbitrary: i)
  case Nil
  then show ?case by simp
next
  case (Cons x xs)
  then show ?case by (cases i) simp_all
qed

lemma sum_list_update_sub:
  "i < length xs \<Longrightarrow> sum_list (xs[i := xs ! i - d]) = sum_list xs - (d::real)"
  using sum_list_update_add [of i xs "- d"] by simp

lemma position_less: "position ns name = Some i \<Longrightarrow> i < length ns"
  by (induction ns arbitrary: i) (auto split: if_splits)

lemma position_member: "name \<in> set ns \<Longrightarrow> \<exists>i. position ns name = Some i"
  by (induction ns) auto

lemma apply_flow_sum:
  assumes len: "length dy = length (compartment_list m)"
    and run: "apply_flow m t y fl (dy, d) = Inr (dy', d')"
  shows "length dy' = length dy \<and> sum_list dy' + d' = sum_list dy + d"
proof -
  from run obtain r where r: "flow_rate m t y fl = Inr r"
    by (auto simp: apply_flow_def split: sum.splits)
  from run r obtain i where i: "Option.bind (fl ''origin'') (position (compartment_list m)) = Some i"
    by (auto simp: apply_flow_def split: option.splits)
  then have "position (compartment_list m) (the (fl ''origin'')) = Some i"
    by (cases "fl ''origin''") simp_all
  then have il: "i < length dy" using position_less len by fastforce
  let ?net = "r * y ! i"
  let ?dy1 = "dy[i := dy ! i - ?net]"
  have s1: "sum_list ?dy1 = sum_list dy - ?net" using il by (rule sum_list_update_sub)
  show ?thesis
  proof (cases "fl ''type'' = Some ''compartment_death''")
    case True
    then have "dy' = ?dy1 \<and> d' = d + ?net"
      using run r i by (simp add: apply_flow_def Let_def)
    then show ?thesis using s1 by simp
  next
    case False
    note nd = False
    show ?thesis
    proof (cases "fl ''to''")
      case None
      then have "dy' = ?dy1 \<and> d' = d + ?net"
        using run r i nd by (simp add: apply_flow_def Let_def)
      then show ?thesis using s1 by simp
    next
      case (Some dest)
      from run r i nd Some obtain j where
        j: "position (compartment_list m) dest = Some j"
        by (auto simp: apply_flow_def Let_def split: option.splits)
      have jl: "j < length ?dy1" using position_less [OF j] len by simp
      have "dy' = ?dy1[j := ?dy1 ! j + ?net] \<and> d' = d"
        using run r i nd Some j by (simp add: apply_flow_def Let_def)
      then show ?thesis using sum_list_update_add [OF jl, of ?net] s1 by simp
    qed
  qed
qed

lemma apply_flows_sum:
  assumes "length dy = length (compartment_list m)"
    and "apply_flows m t y fls (dy, d) = Inr (dy', d')"
  shows "length dy' = length dy \<and> sum_list dy' + d' = sum_list dy + d"
  using assms
proof (induction fls arbitrary: dy d)
  case Nil
  then show ?case by simp
next
  case (Cons fl fls)
  from Cons.prems(2) obtain dy1 d1 where
    one: "apply_flow m t y fl (dy, d) = Inr (dy1, d1)"
    and rest: "apply_flows m t y fls (dy1, d1) = Inr (dy', d')"
    by (auto split: sum.splits)
  have a: "length dy1 = length dy \<and> sum_list dy1 + d1 = sum_list dy + d"
    using apply_flow_sum [OF Cons.prems(1) one] .
  have b: "length dy' = length dy1 \<and> sum_list dy' + d' = sum_list dy1 + d1"
    using Cons.IH [OF _ rest] a Cons.prems(1) by simp
  show ?case using a b by simp
qed

lemma sum_list_universal:
  "length dy = length y \<Longrightarrow>
   sum_list (map (\<lambda>(d, v). d - mu * v) (zip dy y)) = sum_list dy - mu * sum_list (y::real list)"
  by (induction dy y rule: list_induct2) (simp_all add: algebra_simps)

lemma derivative_conserving:
  assumes ba: "birth_approach m = ''replace_deaths''"
  shows "conserving (derivative m) (length (compartment_list m))"
  unfolding conserving_def
proof (intro allI impI)
  fix t y dy
  assume run: "derivative m t y = Inr dy"
  let ?n = "length (compartment_list m)"
  have ly: "length y = ?n" using run by (auto simp: derivative_def split: if_splits)
  from run ly obtain dy0 d0 where
    af: "apply_flows m t y (transition_flows m) (map (\<lambda>v. 0) y, 0) = Inr (dy0, d0)"
    by (auto simp: derivative_def split: sum.splits)
  from run ly af obtain mu where mu: "resolve m ''universal_death_rate'' t = Inr mu"
    by (auto simp: derivative_def split: sum.splits)
  from run ly af mu ba obtain i where
    i: "position (compartment_list m) (entry_compartment m) = Some i"
    by (auto simp: derivative_def Let_def split: option.splits)
  have z: "length (map (\<lambda>v. 0::real) y) = ?n" using ly by simp
  have s0: "length dy0 = ?n \<and> sum_list dy0 + d0 = 0"
    using apply_flows_sum [OF z af] ly by simp
  let ?dy1 = "map (\<lambda>(d, v). d - mu * v) (zip dy0 y)"
  have l1: "length ?dy1 = ?n" using s0 ly by simp
  have s1: "sum_list ?dy1 = sum_list dy0 - mu * sum_list y"
    using sum_list_universal [of dy0 y mu] s0 ly by simp
  have dy: "dy = ?dy1[i := ?dy1 ! i + (d0 + mu * sum_list y)]"
    using run ly af mu ba i by (simp add: derivative_def Let_def)
  have il: "i < length ?dy1" using position_less [OF i] l1 by simp
  have "sum_list dy = 0"
    unfolding dy using sum_list_update_add [OF il, of "d0 + mu * sum_list y"] s1 s0 by simp
  moreover have "length dy = ?n" unfolding dy using l1 by simp
  ultimately show "length y = ?n \<and> length dy = ?n \<and> sum_list dy = 0" using ly by simp
qed


lemma resolve_defined:
  "p \<in> dom (time_variant_functions m) \<union> dom (parameter_values m)
   \<Longrightarrow> \<exists>r. resolve m p t = Inr r"
  by (auto simp: resolve_def split: option.splits)

lemma flow_rate_defined:
  assumes "flow_resolves m fl" and "sum_list y \<noteq> 0"
  shows "\<exists>r. flow_rate m t y fl = Inr r"
proof -
  from assms(1) obtain p where p: "fl ''parameter'' = Some p"
    and pr: "p \<in> dom (time_variant_functions m) \<union> dom (parameter_values m)"
    unfolding flow_resolves_def by blast
  from resolve_defined [OF pr] obtain r where r: "resolve m p t = Inr r" by blast
  show ?thesis using assms(2) by (simp add: flow_rate_def p r)
qed

lemma apply_flow_defined:
  assumes fl: "flow_resolves m fl" and y: "sum_list y \<noteq> 0"
  shows "\<exists>acc'. apply_flow m t y fl acc = Inr acc'"
proof -
  obtain dy d where acc: "acc = (dy, d)" by (cases acc)
  from flow_rate_defined [OF fl y] obtain r where r: "flow_rate m t y fl = Inr r" by blast
  from fl obtain origin where o: "fl ''origin'' = Some origin"
    and om: "origin \<in> set (compartment_list m)" by (auto simp: flow_resolves_def)
  from position_member [OF om] obtain i where
    i: "position (compartment_list m) origin = Some i" by blast
  show ?thesis
  proof (cases "fl ''type'' = Some ''compartment_death''")
    case True
    then show ?thesis by (simp add: apply_flow_def acc r o i Let_def)
  next
    case False
    note nd = False
    show ?thesis
    proof (cases "fl ''to''")
      case None
      then show ?thesis using nd by (simp add: apply_flow_def acc r o i Let_def)
    next
      case (Some dest)
      then have dm: "dest \<in> set (compartment_list m)"
        using fl nd by (auto simp: flow_resolves_def)
      from position_member [OF dm] obtain j where
        j: "position (compartment_list m) dest = Some j" by blast
      show ?thesis using nd by (simp add: apply_flow_def acc r o i Some j Let_def)
    qed
  qed
qed

lemma apply_flows_defined:
  assumes "\<forall>fl \<in> set fls. flow_resolves m fl" and "sum_list y \<noteq> 0"
  shows "\<exists>acc'. apply_flows m t y fls acc = Inr acc'"
  using assms(1)
proof (induction fls arbitrary: acc)
  case Nil
  then show ?case by simp
next
  case (Cons fl fls)
  then have "flow_resolves m fl" by simp
  from apply_flow_defined [OF this assms(2)] obtain acc1 where
    "apply_flow m t y fl acc = Inr acc1" by blast
  moreover from Cons obtain acc2 where "apply_flows m t y fls acc1 = Inr acc2" by fastforce
  ultimately show ?case by simp
qed

lemma derivative_defined:
  assumes ba: "birth_approach m = ''replace_deaths''"
    and fls: "\<forall>fl \<in> set (transition_flows m). flow_resolves m fl"
    and mu: "''universal_death_rate'' \<in> dom (time_variant_functions m) \<union> dom (parameter_values m)"
    and en: "entry_compartment m \<in> set (compartment_list m)"
    and P: "P \<noteq> 0"
  shows "defined_on (derivative m) (length (compartment_list m)) P"
  unfolding defined_on_def
proof (intro allI impI)
  fix t y
  assume y: "length y = length (compartment_list m) \<and> sum_list y = P"
  then have ny: "sum_list y \<noteq> 0" using P by simp
  from apply_flows_defined [OF fls ny] obtain dy0 d0 where
    af: "apply_flows m t y (transition_flows m) (map (\<lambda>v. 0) y, 0) = Inr (dy0, d0)"
    by fastforce
  from resolve_defined [OF mu] obtain r where r: "resolve m ''universal_death_rate'' t = Inr r"
    by blast
  from position_member [OF en] obtain i where
    i: "position (compartment_list m) (entry_compartment m) = Some i" by blast
  show "\<exists>dy. derivative m t y = Inr dy"
    using y by (simp add: derivative_def af r i ba Let_def)
qed

text \<open>Runge-Kutta steps keep length and total when the right-hand side is conserving.\<close>

lemma vadd_sum:
  "length xs = length ys \<Longrightarrow>
   length (vadd xs ys) = length xs \<and> sum_list (vadd xs ys) = sum_list xs + sum_list ys"
  unfolding vadd_def by (induction xs ys rule: list_induct2) simp_all

lemma vscale_sum: "length (vscale c xs) = length xs \<and> sum_list (vscale c xs) = c * sum_list xs"
  unfolding vscale_def by (induction xs) (simp_all add: algebra_simps)

lemma fold_combine_sum:
  assumes "\<forall>(a, k) \<in> set zs. length k = length y \<and> sum_list k = 0"
  shows "length (fold (\<lambda>(aj, kj) acc. vadd acc (vscale (h * aj) kj)) zs y) = length y
       \<and> sum_list (fold (\<lambda>(aj, kj) acc. vadd acc (vscale (h * aj) kj)) zs y) = sum_list y"
  using assms
proof (induction zs arbitrary: y)
  case Nil
  then show ?case by simp
next
  case (Cons z zs)
  obtain a k where z: "z = (a, k)" by (cases z)
  have k: "length k = length y" "sum_list k = 0" using Cons.prems z by auto
  let ?y1 = "vadd y (vscale (h * a) k)"
  have y1: "length ?y1 = length y \<and> sum_list ?y1 = sum_list y"
    using vadd_sum [of y "vscale (h * a) k"] vscale_sum [of "h * a" k] k by simp
  have "\<forall>(a, k) \<in> set zs. length k = length ?y1 \<and> sum_list k = 0"
    using Cons.prems y1 by auto
  from Cons.IH [OF this] show ?case using y1 by (simp add: z)
qed

lemma combine_sum:
  assumes "\<forall>k \<in> set ks. length k = n \<and> sum_list k = 0"
    and "ks \<noteq> [] \<longrightarrow> length y = n"
  shows "length (combine y h a ks) = length y \<and> sum_list (combine y h a ks) = sum_list y"
proof (cases "ks = []")
  case True
  then show ?thesis by (simp add: combine_def)
next
  case False
  then have "length y = n" using assms(2) by simp
  then have "\<forall>(a, k) \<in> set (zip a ks). length k = length y \<and> sum_list k = 0"
    using assms(1) by (auto dest: set_zip_rightD)
  from fold_combine_sum [OF this] show ?thesis by (simp add: combine_def)
qed

lemma rk_stages_sum:
  assumes f: "conserving f n"
    and "\<forall>k \<in> set ks. length k = n \<and> sum_list k = 0"
    and "ks \<noteq> [] \<longrightarrow> length y = n"
    and "rk_stages f t h y rows ks = Inr ks'"
  shows "(\<forall>k \<in> set ks'. length k = n \<and> sum_list k = 0) \<and> (ks' \<noteq> [] \<longrightarrow> length y = n)"
  using assms(2-)
proof (induction rows arbitrary: ks)
  case Nil
  then show ?case by simp
next
  case (Cons row rows)
  obtain c a where row: "row = (c, a)" by (cases row)
  from Cons.prems(3) obtain k where
    k: "f (t + c * h) (combine y h a ks) = Inr k"
    and rest: "rk_stages f t h y rows (ks @ [k]) = Inr ks'"
    by (auto simp: row split: sum.splits)
  have kk: "length (combine y h a ks) = n \<and> length k = n \<and> sum_list k = 0"
    using f k unfolding conserving_def by blast
  have "length (combine y h a ks) = length y"
    using combine_sum [OF Cons.prems(1,2)] by simp
  then have ly: "length y = n" using kk by simp
  have "\<forall>k' \<in> set (ks @ [k]). length k' = n \<and> sum_list k' = 0"
    using Cons.prems(1) kk by auto
  from Cons.IH [OF this _ rest] ly show ?case by simp
qed

lemma rk_step_sum:
  assumes "conserving f n" and "rk_step f tab t h y = Inr y'"
  shows "length y' = length y \<and> sum_list y' = sum_list y"
proof -
  from assms(2) obtain ks where
    ks: "rk_stages f t h y (zip (nodes tab) (coefficients tab)) [] = Inr ks"
    and y': "y' = combine y h (weights tab) ks"
    by (auto simp: rk_step_def split: sum.splits)
  have "(\<forall>k \<in> set ks. length k = n \<and> sum_list k = 0) \<and> (ks \<noteq> [] \<longrightarrow> length y = n)"
    using rk_stages_sum [OF assms(1) _ _ ks] by simp
  then show ?thesis unfolding y' using combine_sum by blast
qed

text \<open>Clamping keeps the length, never lowers the total, and changes nothing when no value is negative.\<close>

lemma clamp_length: "length (clamp y) = length y"
  by (simp add: clamp_def)

lemma clamp_sum: "sum_list y \<le> sum_list (clamp y)"
  unfolding clamp_def by (induction y) (simp_all add: max_def)

lemma clamp_nonnegative: "\<forall>v \<in> set (clamp y). 0 \<le> v"
  by (simp add: clamp_def)

lemma clamp_none: "negatives y = 0 \<Longrightarrow> clamp y = y"
  unfolding clamp_def negatives_def
  by (induction y) (simp_all add: max_def split: if_splits)

lemma rk_path_sum:
  assumes "conserving f n" and "rk_path f tab t y ts = Inr (y', w)"
  shows "length y' = length y \<and> sum_list y \<le> sum_list y'
       \<and> (w = 0 \<longrightarrow> sum_list y' = sum_list y)
       \<and> (ts \<noteq> [] \<longrightarrow> (\<forall>v \<in> set y'. 0 \<le> v))"
  using assms(2)
proof (induction ts arbitrary: t y w)
  case Nil
  then show ?case by simp
next
  case (Cons t' ts)
  from Cons.prems obtain y1 w1 where
    one: "rk_step f tab t (t' - t) y = Inr y1"
    and rest: "rk_path f tab t' (clamp y1) ts = Inr (y', w1)"
    and w: "w = negatives y1 + w1"
    by (auto split: sum.splits)
  have s1: "length y1 = length y \<and> sum_list y1 = sum_list y"
    using rk_step_sum [OF assms(1) one] .
  have ih: "length y' = length (clamp y1) \<and> sum_list (clamp y1) \<le> sum_list y'
       \<and> (w1 = 0 \<longrightarrow> sum_list y' = sum_list (clamp y1))
       \<and> (ts \<noteq> [] \<longrightarrow> (\<forall>v \<in> set y'. 0 \<le> v))"
    using Cons.IH [OF rest] .
  have a: "length y' = length y" using ih s1 by (simp add: clamp_length)
  have b: "sum_list y \<le> sum_list y'" using ih s1 clamp_sum [of y1] by simp
  have c: "sum_list y' = sum_list y" if "w = 0"
  proof -
    from that w have "negatives y1 = 0" and "w1 = 0" by simp_all
    then show ?thesis using ih s1 by (simp add: clamp_none)
  qed
  have d: "\<forall>v \<in> set y'. 0 \<le> v"
  proof (cases "ts = []")
    case True
    then have "y' = clamp y1" using rest by simp
    then show ?thesis using clamp_nonnegative by simp
  next
    case False
    then show ?thesis using ih by simp
  qed
  show ?case using a b c d by simp
qed

lemma sample_sum:
  assumes "conserving f n" and "sample f tab ctrl t y grid = Inr (rows, w)"
  shows "length rows = length grid
       \<and> (\<forall>row \<in> set rows. length row = length y \<and> sum_list y \<le> sum_list row
              \<and> (w = 0 \<longrightarrow> sum_list row = sum_list y) \<and> (\<forall>v \<in> set row. 0 \<le> v))"
  using assms(2)
proof (induction grid arbitrary: t y rows w)
  case Nil
  then show ?case by simp
next
  case (Cons t' grid)
  from Cons.prems obtain y1 w1 rows1 w2 where
    one: "rk_path f tab t y (ctrl t t' y @ [t']) = Inr (y1, w1)"
    and rest: "sample f tab ctrl t' y1 grid = Inr (rows1, w2)"
    and rows: "rows = y1 # rows1" and w: "w = w1 + w2"
    by (auto split: sum.splits)
  have p: "length y1 = length y \<and> sum_list y \<le> sum_list y1
       \<and> (w1 = 0 \<longrightarrow> sum_list y1 = sum_list y) \<and> (\<forall>v \<in> set y1. 0 \<le> v)"
    using rk_path_sum [OF assms(1) one] by simp
  have ih: "length rows1 = length grid
       \<and> (\<forall>row \<in> set rows1. length row = length y1 \<and> sum_list y1 \<le> sum_list row
              \<and> (w2 = 0 \<longrightarrow> sum_list row = sum_list y1) \<and> (\<forall>v \<in> set row. 0 \<le> v))"
    using Cons.IH [OF rest] .
  have "length row = length y \<and> sum_list y \<le> sum_list row
              \<and> (w = 0 \<longrightarrow> sum_list row = sum_list y) \<and> (\<forall>v \<in> set row. 0 \<le> v)"
    if r: "row \<in> set rows" for row
  proof (cases "row = y1")
    case True
    then show ?thesis using p w by simp
  next
    case False
    then have "row \<in> set rows1" using r rows by simp
    then have "length row = length y1 \<and> sum_list y1 \<le> sum_list row
              \<and> (w2 = 0 \<longrightarrow> sum_list row = sum_list y1) \<and> (\<forall>v \<in> set row. 0 \<le> v)"
      using ih by blast
    then show ?thesis using p w by auto
  qed
  then show ?case using ih by (simp add: rows)
qed


lemma rk_stages_defined:
  assumes f: "conserving f n" and d: "defined_on f n P"
    and y: "length y = n" "sum_list y = P"
    and "\<forall>k \<in> set ks. length k = n \<and> sum_list k = 0"
  shows "\<exists>ks'. rk_stages f t h y rows ks = Inr ks'"
  using assms(5)
proof (induction rows arbitrary: ks)
  case Nil
  then show ?case by simp
next
  case (Cons row rows)
  obtain c a where row: "row = (c, a)" by (cases row)
  have "length (combine y h a ks) = n \<and> sum_list (combine y h a ks) = P"
    using combine_sum [OF Cons.prems, of y h a] y by simp
  then obtain k where k: "f (t + c * h) (combine y h a ks) = Inr k"
    using d unfolding defined_on_def by blast
  then have "length k = n \<and> sum_list k = 0" using f unfolding conserving_def by blast
  then have "\<forall>k' \<in> set (ks @ [k]). length k' = n \<and> sum_list k' = 0"
    using Cons.prems by auto
  from Cons.IH [OF this] show ?case by (simp add: row k)
qed

lemma rk_step_defined:
  assumes "conserving f n" and "defined_on f n P" and "length y = n" and "sum_list y = P"
  shows "\<exists>y'. rk_step f tab t h y = Inr y'"
proof -
  from rk_stages_defined [OF assms, of "[]"] obtain ks where
    "rk_stages f t h y (zip (nodes tab) (coefficients tab)) [] = Inr ks" by fastforce
  then show ?thesis by (simp add: rk_step_def)
qed

lemma rk_path_defined:
  assumes f: "conserving f n" and d: "\<And>P. 0 < P \<Longrightarrow> defined_on f n P"
  shows "length y = n \<Longrightarrow> 0 < sum_list y \<Longrightarrow> \<exists>r. rk_path f tab t y ts = Inr r"
proof (induction ts arbitrary: t y)
  case Nil
  then show ?case by simp
next
  case (Cons t' ts)
  from rk_step_defined [OF f d [OF Cons.prems(2)] Cons.prems(1) refl] obtain y1 where
    one: "rk_step f tab t (t' - t) y = Inr y1" by blast
  have "length y1 = n \<and> sum_list y1 = sum_list y"
    using rk_step_sum [OF f one] Cons.prems by simp
  then have "length (clamp y1) = n \<and> 0 < sum_list (clamp y1)"
    using clamp_sum [of y1] Cons.prems(2) by (simp add: clamp_length)
  then obtain r where "rk_path f tab t' (clamp y1) ts = Inr r" using Cons.IH by blast
  then show ?case by (cases r) (simp add: one)
qed

lemma sample_defined:
  assumes f: "conserving f n" and d: "\<And>P. 0 < P \<Longrightarrow> defined_on f n P"
  shows "length y = n \<Longrightarrow> 0 < sum_list y \<Longrightarrow> \<exists>r. sample f tab ctrl t y grid = Inr r"
proof (induction grid arbitrary: t y)
  case Nil
  then show ?case by simp
next
  case (Cons t' grid)
  from rk_path_defined [OF f d Cons.prems] obtain y1 w1 where
    one: "rk_path f tab t y (ctrl t t' y @ [t']) = Inr (y1, w1)" by fastforce
  have "length y1 = n \<and> 0 < sum_list y1"
    using rk_path_sum [OF f one] Cons.prems by simp
  then obtain r where "sample f tab ctrl t' y1 grid = Inr r" using Cons.IH by blast
  then show ?case by (cases r) (simp add: one)
qed

lemma run_model_spec_sum:
  assumes "conserving (derivative m) n" and "run_model_spec tab ctrl m = Inr (outs, w)"
  shows "length outs = length (integration_times m)
       \<and> (\<forall>row \<in> set outs. length row = length (initial_values m)
              \<and> sum_list (initial_values m) \<le> sum_list row
              \<and> (w = 0 \<longrightarrow> sum_list row = sum_list (initial_values m)))
       \<and> (\<forall>row \<in> set (tl outs). \<forall>v \<in> set row. 0 \<le> v)"
proof (cases "integration_times m")
  case Nil
  then show ?thesis using assms(2) by (simp add: run_model_spec_def)
next
  case (Cons t0 grid)
  with assms(2) obtain rows where
    rows: "sample (derivative m) tab ctrl t0 (initial_values m) grid = Inr (rows, w)"
    and outs: "outs = initial_values m # rows"
    by (auto simp: run_model_spec_def split: sum.splits)
  show ?thesis using sample_sum [OF assms(1) rows] by (simp add: outs Cons)
qed

text \<open>The unstratified tuberculosis model under the forward Euler method.\<close>

lemma unstratified_tb_model_resolves: "model_resolves (unstratified_tb_model grid)"
  by (simp add: model_resolves_def flow_resolves_def unstratified_tb_model_def flows_def
      add_standard_natural_history_flows_def add_standard_latency_flows_def
      add_standard_infection_flows_def compartments_def)

lemma unstratified_tb_model_times:
  "integration_times (unstratified_tb_model grid) = grid"
  "initial_values (unstratified_tb_model grid) = [999 / 1000, 0, 0, 1 / 1000, 0]"
  by (simp_all add: unstratified_tb_model_def)

lemma unstratified_tb_model_derivative_0:
  "derivative (unstratified_tb_model grid) t [999 / 1000, 0, 0, 1 / 1000, 0]
     = Inr [- (1987 / 50000), 999 / 25000, 0, - (53 / 150000), 1 / 7500]"
  by (simp add: derivative_def unstratified_tb_model_def flows_def
      add_standard_natural_history_flows_def add_standard_latency_flows_def
      add_standard_infection_flows_def compartments_def apply_flow_def flow_rate_def
      resolve_def weighted_infectious_def Let_def)

lemma unstratified_tb_model_derivative_1:
  "derivative (unstratified_tb_model grid) t
       [477643 / 500000, 10989 / 250000, 0, 917 / 1500000, 11 / 75000]
     = Inr [- (139646127 / 6250000000), - (8748979117 / 56250000000),
            802197 / 5000000, 3907439 / 225000000, 210913 / 2812500000]"
  by (simp add: derivative_def unstratified_tb_model_def flows_def
      add_standard_natural_history_flows_def add_standard_latency_flows_def
      add_standard_infection_flows_def compartments_def apply_flow_def flow_rate_def
      resolve_def weighted_infectious_def Let_def)

lemma unstratified_tb_model_step_0:
  "rk_step (derivative (unstratified_tb_model grid)) euler t (11 / 10)
       [999 / 1000, 0, 0, 1 / 1000, 0]
     = Inr [477643 / 500000, 10989 / 250000, 0, 917 / 1500000, 11 / 75000]"
  by (simp add: rk_step_def euler_def combine_def vadd_def vscale_def
      unstratified_tb_model_derivative_0)




end
